theory Spec2Isabelle
  imports Main "HOL-Library.Char_ord" "HOL-Library.List_Lexorder" "HOL-Library.AList"
    "HOL-Library.Sublist"
begin

section \<open>CloudHunter: a shallow embedding of cloudhunter.py\<close>

text \<open>
  Python strings are \<open>string\<close> (character lists). The network, the DNS resolvers and the
  parsers of third-party libraries are inputs of the model: every function that talks to
  them takes an environment of oracles and returns the requests it issued. An exception
  is a value (\<open>exn\<close>); a method that mutates its object returns the object as the raise
  or the return left it.
\<close>

subsection \<open>String helpers (Python's str methods)\<close>

text \<open>\<^verbatim>\<open>sub in s\<close> for strings: \<open>sub\<close> occurs in \<open>s\<close> as a contiguous substring.\<close>

definition startswith :: "string \<Rightarrow> string \<Rightarrow> bool" where
  "startswith s p = (take (length p) s = p)"

fun contains :: "string \<Rightarrow> string \<Rightarrow> bool" where
  "contains sub [] = (sub = [])"
| "contains sub (c # cs) = (startswith (c # cs) sub \<or> contains sub cs)"

text \<open>\<^verbatim>\<open>s.split(sep)\<close> for a one-character separator: never empty, \<^verbatim>\<open>''.split('/') == ['']\<close>.\<close>

fun split :: "char \<Rightarrow> string \<Rightarrow> string list" where
  "split sep [] = [[]]"
| "split sep (c # cs) =
     (if c = sep then [] # split sep cs
      else (case split sep cs of [] \<Rightarrow> [[c]] | w # ws \<Rightarrow> (c # w) # ws))"

subsection \<open>Permutation generator\<close>

text \<open>
  \<^verbatim>\<open>rules = ['{}-{}', '{}.{}', '{}{}']\<close> and \<^verbatim>\<open>[x.format(a, b) for x in rules]\<close>.
\<close>

definition format_rules :: "string \<Rightarrow> string \<Rightarrow> string list" where
  "format_rules a b = [a @ ''-'' @ b, a @ ''.'' @ b, a @ b]"

text \<open>
  The loop \<^verbatim>\<open>for affix in lines\<close> of \<^verbatim>\<open>generate_permutations\<close>, with the list \<open>p\<close> it
  extends. The lines of the dictionary file are the argument \<open>lines\<close>.
\<close>

primrec permutations_loop :: "string \<Rightarrow> string list \<Rightarrow> string list \<Rightarrow> string list" where
  "permutations_loop base_name [] p = p"
| "permutations_loop base_name (affix # lines) p =
     permutations_loop base_name lines
       ((p @ format_rules affix base_name) @ format_rules base_name affix)"

definition generate_permutations :: "string \<Rightarrow> string list \<Rightarrow> string list" where
  "generate_permutations base_name lines = permutations_loop base_name lines [base_name]"

subsection \<open>Data model\<close>

datatype State = CLOSE | DOMAIN | PRIVATE | OPEN | UNKNOWN

datatype Risk = LOW | MEDIUM | HIGH

text \<open>
  Python is dynamically typed: a bucket's name is a string everywhere but in
  \<^verbatim>\<open>what_cloud_worker\<close>, which can store a list slice in it.
\<close>

datatype pyval = Str string | StrList "string list"

datatype exn = KeyError | TypeError | UnboundLocalError | RequestError

text \<open>
  One \<^verbatim>\<open>Grant\<close> of the parsed ACL document: a dictionary with the keys \<^verbatim>\<open>Grantee\<close> (itself a
  dictionary of strings, in document order) and \<^verbatim>\<open>Permission\<close>; \<open>None\<close> is a missing key.
\<close>

record grant =
  Grantee :: "(string \<times> string) list option"
  Permission :: "string option"

text \<open>
  \<^verbatim>\<open>xmltodict\<close> gives a list for repeated \<^verbatim>\<open>Grant\<close> elements and a single dictionary for one.
\<close>

datatype grants = GrantList "grant list" | GrantDict grant

datatype acl_val = GoogleAcl "string list" | AwsAcl grants

record Bucket =
  name :: pyval
  domain :: string
  cloud :: string
  srv_name :: string
  state :: State
  risk :: Risk
  details :: "string list"
  acl :: "acl_val option"

definition new_Bucket :: "pyval \<Rightarrow> string \<Rightarrow> string \<Rightarrow> string \<Rightarrow> Bucket" where
  "new_Bucket nm dn cl srv =
     \<lparr>name = nm, domain = dn, cloud = cl, srv_name = srv,
      state = CLOSE, risk = LOW, details = [], acl = None\<rparr>"

text \<open>
  A \<^verbatim>\<open>requests.Response\<close>, by the fields the program reads: the status code, the headers (the
  items of a case-insensitive dictionary), the status codes of the responses in \<^verbatim>\<open>history\<close>,
  and the final URL.
\<close>

record response =
  status_code :: int
  headers :: "(string \<times> string) list"
  history :: "int list"
  url :: string

text \<open>
  The parsed document of the \<^verbatim>\<open>?acl\<close> request, by the keys \<^verbatim>\<open>_aws_acl\<close> looks up. An element
  without content parses to \<^verbatim>\<open>None\<close>: \<open>EmptyPolicy\<close> and \<open>EmptyList\<close>.
\<close>

datatype access_control_list = NoGrantKey | Grant grants

datatype access_control_policy = NoListKey | EmptyList | AccessControlList access_control_list

datatype aws_doc = NoPolicyKey | EmptyPolicy | AccessControlPolicy access_control_policy

text \<open>
  The outside world. \<open>None\<close> is a call that raised, the request or the parsing of its
  answer (\<^verbatim>\<open>.json()\<close>, \<^verbatim>\<open>xmltodict.parse\<close>). \<open>dns_resolve\<close> is the truth value of the
  answer of \<^verbatim>\<open>resolver.resolve(hostname)\<close>; \<open>requests_head\<close> answers \<^verbatim>\<open>requests.head(url)\<close>;
  \<open>azure_list_shares dn\<close> is the status of \<^verbatim>\<open>GET https://{dn}/?comp=list\<close>;
  \<open>azure_list_container dn c\<close> the status of
  \<^verbatim>\<open>GET https://{dn}/{c}?restype=container&comp=list\<close>; \<open>google_test_permissions n\<close> the
  \<^verbatim>\<open>permissions\<close> entry (\<open>None\<close> when absent) of the JSON answer of testPermissions for bucket
  \<open>n\<close>; \<open>aws_get_acl n\<close> the parsed answer of \<^verbatim>\<open>GET https://{n}.s3.amazonaws.com/?acl\<close>.
\<close>

record env =
  dns_resolve :: "string \<Rightarrow> bool option"
  requests_head :: "string \<Rightarrow> response option"
  azure_list_shares :: "string \<Rightarrow> int option"
  azure_list_container :: "string \<Rightarrow> pyval \<Rightarrow> int option"
  google_test_permissions :: "pyval \<Rightarrow> string list option option"
  aws_get_acl :: "pyval \<Rightarrow> aws_doc option"

datatype request =
  Resolve string
| Head string
| GetAzureShares string
| GetAzureContainer string pyval
| GetGoogleIam pyval
| GetAwsAcl pyval

text \<open>
  What a method that mutates a bucket leaves behind: the bucket, the requests it issued in
  order, and the exception it raised, if any.
\<close>

type_synonym outcome = "Bucket \<times> request list \<times> exn option"

subsection \<open>More string helpers\<close>

text \<open>\<^verbatim>\<open>s.lower()\<close>, for the ASCII letters.\<close>

definition lower_char :: "char \<Rightarrow> char" where
  "lower_char c =
     (case map_of (zip ''ABCDEFGHIJKLMNOPQRSTUVWXYZ'' ''abcdefghijklmnopqrstuvwxyz'') c of
        None \<Rightarrow> c
      | Some l \<Rightarrow> l)"

definition lower :: "string \<Rightarrow> string" where
  "lower s = map lower_char s"

text \<open>\<^verbatim>\<open>headers.get(key, None)\<close> on a case-insensitive dictionary.\<close>

fun ci_get :: "(string \<times> string) list \<Rightarrow> string \<Rightarrow> string option" where
  "ci_get [] k = None"
| "ci_get ((k', v) # kvs) k = (if lower k' = lower k then Some v else ci_get kvs k)"

text \<open>The decimal digit \<open>d\<close>, for \<open>d < 10\<close>.\<close>

definition digit_char :: "nat \<Rightarrow> char" where
  "digit_char d = ''0123456789'' ! d"

fun str_nat :: "nat \<Rightarrow> string" where
  "str_nat n = (if n < 10 then [digit_char n] else str_nat (n div 10) @ [digit_char (n mod 10)])"

declare str_nat.simps [simp del]

text \<open>\<^verbatim>\<open>f'{i}'\<close> for an integer.\<close>

definition str_int :: "int \<Rightarrow> string" where
  "str_int i = (if i < 0 then CHR ''-'' # str_nat (nat (- i)) else str_nat (nat i))"

text \<open>\<^verbatim>\<open>','.join(xs)\<close>: a TypeError when an item is not a string.\<close>

fun join_comma :: "pyval list \<Rightarrow> exn + string" where
  "join_comma [] = Inr []"
| "join_comma (StrList l # xs) = Inl TypeError"
| "join_comma [Str s] = Inr s"
| "join_comma (Str s # xs) =
     (case join_comma xs of Inl e \<Rightarrow> Inl e | Inr t \<Rightarrow> Inr (s @ '','' @ t))"

subsection \<open>Bucket classifier: \<^verbatim>\<open>Bucket.process_status\<close>\<close>

text \<open>\<^verbatim>\<open>len(response.history) != 0 and response.history[0].status_code in [301, 302]\<close>\<close>

definition first_hop_redirect :: "response \<Rightarrow> bool" where
  "first_hop_redirect r = (case history r of [] \<Rightarrow> False | h # hs \<Rightarrow> h = 301 \<or> h = 302)"

text \<open>\<^verbatim>\<open>'login' in response.url or 'signin' in response.url\<close>\<close>

definition auth_url :: "string \<Rightarrow> bool" where
  "auth_url u = (contains ''login'' u \<or> contains ''signin'' u)"

text \<open>\<^verbatim>\<open>content_type and 'application/xml' in content_type\<close>, for the header's value.\<close>

definition xml_content :: "response \<Rightarrow> bool" where
  "xml_content r =
     (case ci_get (headers r) ''Content-Type'' of
        None \<Rightarrow> False
      | Some ct \<Rightarrow> ct \<noteq> [] \<and> contains ''application/xml'' ct)"

text \<open>Lines 86 to 105: the seed-name rule and the status-code rules.\<close>

definition status_rules :: "string \<Rightarrow> response \<Rightarrow> Bucket \<Rightarrow> Bucket" where
  "status_rules base_name r b =
     (let b1 = (if name b = Str base_name then b\<lparr>risk := MEDIUM\<rparr> else b) in
      if status_code r = 200 then
        (let b2 = b1\<lparr>state := OPEN, risk := MEDIUM\<rparr> in
         if xml_content r then b2\<lparr>risk := HIGH, details := details b2 @ [''LIST'']\<rparr> else b2)
      else if status_code r \<in> set [400, 401, 403] then b1\<lparr>state := PRIVATE\<rparr>
      else if status_code r \<in> set [500, 502, 503] then
        b1\<lparr>state := OPEN, risk := MEDIUM, details := details b1 @ [''WebApp Error'']\<rparr>
      else
        b1\<lparr>state := UNKNOWN, risk := MEDIUM,
            details := details b1 @ [''Response: '' @ str_int (status_code r)]\<rparr>)"

text \<open>Lines 107 to 111: the redirect rule.\<close>

definition redirect_rule :: "response \<Rightarrow> Bucket \<Rightarrow> Bucket" where
  "redirect_rule r b =
     (if first_hop_redirect r then
        (let b1 = b\<lparr>details := details b @ [''Redirect '' @ url r]\<rparr> in
         if auth_url (url r) then b1\<lparr>state := PRIVATE, risk := LOW\<rparr> else b1)
      else b)"

subsection \<open>Provider ACL enumerators\<close>

text \<open>The loop over \<^verbatim>\<open>COMMON_CONTAINERS\<close>, with the list \<open>findings\<close> it extends.\<close>

fun azure_containers ::
  "env \<Rightarrow> string \<Rightarrow> pyval list \<Rightarrow> pyval list \<Rightarrow> pyval list \<times> request list" where
  "azure_containers e dn [] findings = (findings, [])"
| "azure_containers e dn (c # cs) findings =
     (case azure_containers e dn cs
             (if azure_list_container e dn c = Some 200 then findings @ [c] else findings) of
        (f, tr) \<Rightarrow> (f, GetAzureContainer dn c # tr))"

definition COMMON_CONTAINERS :: "string list" where
  "COMMON_CONTAINERS =
     [''images'', ''mycontainer'', ''downloads'', ''backup'', ''backups'', ''web'', ''website'',
      ''private'', ''uploads'', ''page'', ''static'', ''logs'', ''admin'']"

text \<open>The second half of \<^verbatim>\<open>_azure_acl\<close>: the blob containers.\<close>

definition azure_blob :: "env \<Rightarrow> string \<Rightarrow> Bucket \<Rightarrow> outcome" where
  "azure_blob e base_name b =
     (if contains ''blob.core.windows.net'' (domain b) then
        (case azure_containers e (domain b)
                (map Str COMMON_CONTAINERS @ [name b]
                   @ (if name b \<noteq> Str base_name then [Str base_name] else [])) [] of
           (findings, tr) \<Rightarrow>
             if findings \<noteq> [] then
               (let b1 = b\<lparr>risk := HIGH, state := OPEN\<rparr> in
                case join_comma findings of
                  Inl x \<Rightarrow> (b1, tr, Some x)
                | Inr s \<Rightarrow> (b1\<lparr>details := details b1 @ [''Containers: '' @ s]\<rparr>, tr, None))
             else (b, tr, None))
      else (b, [], None))"

text \<open>
  \<^verbatim>\<open>_azure_acl\<close>: the file shares first; a request that raises there returns from the method.
\<close>

definition azure_acl :: "env \<Rightarrow> string \<Rightarrow> Bucket \<Rightarrow> outcome" where
  "azure_acl e base_name b =
     (if contains ''file.core.windows.net'' (domain b) then
        (case azure_list_shares e (domain b) of
           None \<Rightarrow> (b, [GetAzureShares (domain b)], None)
         | Some st \<Rightarrow>
             (case azure_blob e base_name
                     (if st = 200
                      then b\<lparr>risk := HIGH, state := OPEN, details := details b @ [''List Shares'']\<rparr>
                      else b) of
                (b', tr, x) \<Rightarrow> (b', GetAzureShares (domain b) # tr, x)))
      else azure_blob e base_name b)"

text \<open>The symbols of \<^verbatim>\<open>_google_acl\<close>, and whether the permissions raise the risk.\<close>

definition google_symbols :: "string list \<Rightarrow> string" where
  "google_symbols ps =
     (if ''storage.objects.list'' \<in> set ps then ''L'' else [])
     @ (if ''storage.objects.get'' \<in> set ps then ''R'' else [])
     @ (if ''storage.objects.create'' \<in> set ps \<or> ''storage.objects.delete'' \<in> set ps
           \<or> ''storage.objects.update'' \<in> set ps then ''W'' else [])
     @ (if ''storage.buckets.setIamPolicy'' \<in> set ps then ''V'' else [])"

definition google_high :: "string list \<Rightarrow> bool" where
  "google_high ps =
     (''storage.objects.create'' \<in> set ps \<or> ''storage.objects.delete'' \<in> set ps
      \<or> ''storage.objects.update'' \<in> set ps \<or> ''storage.buckets.setIamPolicy'' \<in> set ps)"

definition google_acl :: "env \<Rightarrow> Bucket \<Rightarrow> outcome" where
  "google_acl e b =
     (case google_test_permissions e (name b) of
        None \<Rightarrow> (b, [GetGoogleIam (name b)], Some RequestError)
      | Some None \<Rightarrow> (b, [GetGoogleIam (name b)], None)
      | Some (Some ps) \<Rightarrow>
          if ps = [] then (b, [GetGoogleIam (name b)], None)
          else
            (let b1 = b\<lparr>acl := Some (GoogleAcl ps)\<rparr>;
                 b2 = (if google_high ps then b1\<lparr>risk := HIGH\<rparr> else b1)
             in (b2\<lparr>details := details b2 @ [''AllUsers ['' @ google_symbols ps @ '']'']\<rparr>,
                 [GetGoogleIam (name b)], None)))"

text \<open>
  \<^verbatim>\<open>_aws_acl\<close>. The grantee key of a grant: the display name of a canonical user, the last
  path segment of a group's URI, else the first eight characters of the ID. A missing key
  raises KeyError.
\<close>

definition grant_user :: "grant \<Rightarrow> exn + string" where
  "grant_user right =
     (case Grantee right of
        None \<Rightarrow> Inl KeyError
      | Some g \<Rightarrow>
          (case map_of g ''@xsi:type'' of
             None \<Rightarrow> Inl KeyError
           | Some t \<Rightarrow>
               (case (if t = ''CanonicalUser'' then map_of g ''DisplayName'' else None) of
                  Some n \<Rightarrow> Inr n
                | None \<Rightarrow>
                    if t = ''Group'' then
                      (case map_of g ''URI'' of
                         None \<Rightarrow> Inl KeyError
                       | Some u \<Rightarrow> Inr (last (split CHR ''/'' u)))
                    else
                      (case map_of g ''ID'' of
                         None \<Rightarrow> Inl KeyError
                       | Some i \<Rightarrow> Inr (take 8 i)))))"

text \<open>
  The state of the loop \<^verbatim>\<open>for right in self.acl\<close>: the bucket, the dictionary \<^verbatim>\<open>rights\<close> in
  insertion order, and the local variable \<^verbatim>\<open>symb\<close> (\<open>None\<close> while unbound).
\<close>

type_synonym acl_state = "Bucket \<times> (string \<times> string) list \<times> string option"

text \<open>
  The if/elif chain on \<^verbatim>\<open>right['Permission']\<close>: it has no else branch, so another
  permission leaves the bucket and \<^verbatim>\<open>symb\<close> as they were.
\<close>

definition permission_rule :: "string \<Rightarrow> Bucket \<times> string option \<Rightarrow> Bucket \<times> string option" where
  "permission_rule p bs =
     (if p = ''READ'' \<or> p = ''READ_ACP'' then (fst bs, Some ''R'')
      else if p = ''WRITE'' \<or> p = ''WRITE_ACL'' then ((fst bs)\<lparr>risk := HIGH\<rparr>, Some ''W'')
      else if p = ''FULL_CONTROL'' then ((fst bs)\<lparr>risk := HIGH\<rparr>, Some ''F'')
      else bs)"

text \<open>
  \<^verbatim>\<open>if user not in rights: rights[user] = symb\<close>,
  \<^verbatim>\<open>elif symb not in rights[user]: rights[user] += symb\<close>.
\<close>

definition record_symbol :: "string \<Rightarrow> string \<Rightarrow> (string \<times> string) list \<Rightarrow> (string \<times> string) list" where
  "record_symbol user symb rights =
     (case map_of rights user of
        None \<Rightarrow> AList.update user symb rights
      | Some syms \<Rightarrow>
          if contains symb syms then rights else AList.update user (syms @ symb) rights)"

text \<open>One iteration of the loop: every raise comes before the iteration mutates anything.\<close>

definition aws_grant :: "grant \<Rightarrow> acl_state \<Rightarrow> exn + acl_state" where
  "aws_grant right st =
     (case st of (b, rights, symb) \<Rightarrow>
        (case grant_user right of
           Inl x \<Rightarrow> Inl x
         | Inr user \<Rightarrow>
             (case Permission right of
                None \<Rightarrow> Inl KeyError
              | Some p \<Rightarrow>
                  (case permission_rule p (b, symb) of
                     (b', None) \<Rightarrow> Inl UnboundLocalError
                   | (b', Some s) \<Rightarrow> Inr (b', record_symbol user s rights, Some s)))))"

fun aws_loop :: "grant list \<Rightarrow> acl_state \<Rightarrow> acl_state \<times> exn option" where
  "aws_loop [] st = (st, None)"
| "aws_loop (right # rest) st =
     (case aws_grant right st of
        Inl x \<Rightarrow> (st, Some x)
      | Inr st' \<Rightarrow> aws_loop rest st')"

text \<open>\<^verbatim>\<open>for user, symb in rights.items(): self.details.append(f'{user} [{symb}]')\<close>\<close>

definition rights_details :: "(string \<times> string) list \<Rightarrow> string list" where
  "rights_details rights = map (\<lambda>us. fst us @ '' ['' @ snd us @ '']'') rights"

text \<open>
  The grants of a bucket whose \<^verbatim>\<open>acl\<close> is set. Iterating a single grant's dictionary yields
  its keys, and indexing a key (a string) with \<^verbatim>\<open>'Grantee'\<close> raises TypeError.
\<close>

definition aws_grants :: "grants \<Rightarrow> Bucket \<Rightarrow> Bucket \<times> exn option" where
  "aws_grants gs b =
     (case gs of
        GrantDict g \<Rightarrow>
          if Grantee g = None \<and> Permission g = None then (b, None) else (b, Some TypeError)
      | GrantList rs \<Rightarrow>
          (case aws_loop rs (b, [], None) of
             ((b', rights, symb), Some x) \<Rightarrow> (b', Some x)
           | ((b', rights, symb), None) \<Rightarrow>
               (b'\<lparr>details := details b' @ rights_details rights\<rparr>, None)))"

definition aws_acl :: "env \<Rightarrow> Bucket \<Rightarrow> outcome" where
  "aws_acl e b =
     (case aws_get_acl e (name b) of
        None \<Rightarrow> (b, [GetAwsAcl (name b)], Some RequestError)
      | Some NoPolicyKey \<Rightarrow> (b, [GetAwsAcl (name b)], None)
      | Some EmptyPolicy \<Rightarrow> (b, [GetAwsAcl (name b)], Some TypeError)
      | Some (AccessControlPolicy NoListKey) \<Rightarrow> (b, [GetAwsAcl (name b)], Some KeyError)
      | Some (AccessControlPolicy EmptyList) \<Rightarrow> (b, [GetAwsAcl (name b)], Some TypeError)
      | Some (AccessControlPolicy (AccessControlList NoGrantKey)) \<Rightarrow>
          (b, [GetAwsAcl (name b)], None)
      | Some (AccessControlPolicy (AccessControlList (Grant gs))) \<Rightarrow>
          (case aws_grants gs (b\<lparr>acl := Some (AwsAcl gs)\<rparr>) of
             (b', x) \<Rightarrow> (b', [GetAwsAcl (name b)], x)))"

subsection \<open>\<^verbatim>\<open>Bucket.get_rights\<close> and \<^verbatim>\<open>Bucket.process_status\<close>\<close>

definition get_rights :: "env \<Rightarrow> string \<Rightarrow> Bucket \<Rightarrow> outcome" where
  "get_rights e base_name b =
     (if cloud b = ''azure'' then azure_acl e base_name b
      else if state b \<noteq> OPEN then (b, [], None)
      else if cloud b = ''google'' then google_acl e b
      else if cloud b = ''aws'' then aws_acl e b
      else (b, [], None))"

text \<open>
  \<open>None\<close> is the \<^verbatim>\<open>False\<close> that \<^verbatim>\<open>check_host\<close> returns for no response. \<open>base_name\<close> is the
  global of that name.
\<close>

definition process_status :: "env \<Rightarrow> string \<Rightarrow> response option \<Rightarrow> Bucket \<Rightarrow> outcome" where
  "process_status e base_name resp b =
     (case resp of
        None \<Rightarrow> (b\<lparr>state := DOMAIN\<rparr>, [], None)
      | Some r \<Rightarrow> get_rights e base_name (redirect_rule r (status_rules base_name r b)))"

subsection \<open>Worker: \<^verbatim>\<open>check_dns\<close>, \<^verbatim>\<open>check_host\<close>, \<^verbatim>\<open>search_buckets_worker\<close>\<close>

definition check_dns :: "env \<Rightarrow> string \<Rightarrow> bool" where
  "check_dns e hostname = (case dns_resolve e hostname of None \<Rightarrow> False | Some a \<Rightarrow> a)"

definition check_host :: "env \<Rightarrow> string \<Rightarrow> response option" where
  "check_host e host =
     (case requests_head e (''http://'' @ host) of
        None \<Rightarrow> None
      | Some r \<Rightarrow> if status_code r \<in> set [404] then None else Some r)"

text \<open>
  One worker draining the queue, a list of \<^verbatim>\<open>(srv_name, domain, name)\<close>, front first. The
  result is the list \<^verbatim>\<open>results\<close>, the requests issued, and the exception that ended the
  worker, if any (nothing in the worker catches what \<^verbatim>\<open>process_status\<close> raises). Printing
  is left out.
\<close>

fun search_buckets_worker ::
  "env \<Rightarrow> string \<Rightarrow> string \<Rightarrow> (string \<times> string \<times> string) list \<Rightarrow> Bucket list
     \<Rightarrow> Bucket list \<times> request list \<times> exn option" where
  "search_buckets_worker e base_name cl [] results = (results, [], None)"
| "search_buckets_worker e base_name cl ((srv, dn, nm) # q) results =
     (if check_dns e dn then
        (let response = check_host e dn in
         if response \<noteq> None \<or> cl = ''azure'' then
           (case process_status e base_name response (new_Bucket (Str nm) dn cl srv) of
              (b, tr, Some x) \<Rightarrow> (results, Resolve dn # Head (''http://'' @ dn) # tr, Some x)
            | (b, tr, None) \<Rightarrow>
                (case search_buckets_worker e base_name cl q (results @ [b]) of
                   (res, tr', x) \<Rightarrow> (res, Resolve dn # Head (''http://'' @ dn) # tr @ tr', x)))
         else
           (case search_buckets_worker e base_name cl q results of
              (res, tr', x) \<Rightarrow> (res, Resolve dn # Head (''http://'' @ dn) # tr', x)))
      else
        (case search_buckets_worker e base_name cl q results of
           (res, tr', x) \<Rightarrow> (res, Resolve dn # tr', x)))"

subsection \<open>Cloud fingerprint classifier: the name of \<^verbatim>\<open>what_cloud_worker\<close>\<close>

definition cloud_base_domains :: "string list" where
  "cloud_base_domains =
     [''amazonaws'', ''amazon'', ''google'', ''googleapis'', ''appspot'', ''azure'', ''azureedge'',
      ''windows'']"

text \<open>
  Lines 514 to 526. \<open>domain_name\<close> is \<^verbatim>\<open>tldextract.extract(url).domain\<close>; \<open>netloc\<close> and \<open>path\<close>
  are those of \<^verbatim>\<open>urlparse(url)\<close>. \<^verbatim>\<open>srv = u.path.split('/')[1:2]\<close> is a list slice, and
  \<^verbatim>\<open>name = srv\<close> stores the slice.
\<close>

definition what_cloud_name :: "string \<Rightarrow> string \<Rightarrow> string \<Rightarrow> pyval" where
  "what_cloud_name domain_name netloc path =
     (let srv = take 1 (drop 1 (split CHR ''/'' path)) in
      if length (split CHR ''.'' netloc) > 3 then Str (split CHR ''.'' netloc ! 0)
      else if srv = [] then Str domain_name
      else if domain_name \<in> set cloud_base_domains then StrList srv
      else Str domain_name)"

subsection \<open>Scoped crawler: \<^verbatim>\<open>HiddenGems\<close>\<close>

text \<open>
  The attribute names of a \<^verbatim>\<open>requests.structures.CaseInsensitiveDict\<close> object, the type of
  \<^verbatim>\<open>r.headers\<close>. Header names are keys of the dictionary \<^verbatim>\<open>_store\<close> it holds, not attributes.
\<close>

definition header_attributes :: "string list" where
  "header_attributes =
     [''_MutableMapping__marker'', ''__abstractmethods__'', ''__class__'',
      ''__class_getitem__'', ''__contains__'', ''__delattr__'', ''__delitem__'', ''__dict__'',
      ''__dir__'', ''__doc__'', ''__eq__'', ''__format__'', ''__ge__'', ''__getattribute__'',
      ''__getitem__'', ''__getstate__'', ''__gt__'', ''__hash__'', ''__init__'',
      ''__init_subclass__'', ''__iter__'', ''__le__'', ''__len__'', ''__lt__'', ''__module__'',
      ''__ne__'', ''__new__'', ''__reduce__'', ''__reduce_ex__'', ''__repr__'', ''__reversed__'',
      ''__setattr__'', ''__setitem__'', ''__sizeof__'', ''__slots__'', ''__str__'',
      ''__subclasshook__'', ''__weakref__'', ''_abc_impl'', ''_store'', ''clear'', ''copy'',
      ''get'', ''items'', ''keys'', ''lower_items'', ''pop'', ''popitem'', ''setdefault'',
      ''update'', ''values'']"

text \<open>\<^verbatim>\<open>hasattr(headers, a)\<close>\<close>

definition hasattr_headers :: "string \<Rightarrow> bool" where
  "hasattr_headers a = (a \<in> set header_attributes)"

text \<open>
  \<^verbatim>\<open>extract_cors\<close>, on the items of the headers. \<^verbatim>\<open>headers[key]\<close> raises KeyError for a
  missing key.
\<close>

definition extract_cors :: "(string \<times> string) list \<Rightarrow> exn + string list" where
  "extract_cors hs =
     (if hasattr_headers ''Access-Control-Allow-Origin'' then
        (case ci_get hs ''Access-Control-Allow-Origin'' of
           None \<Rightarrow> Inl KeyError
         | Some v \<Rightarrow>
             (let cors = split CHR '','' v in
              if ''*'' \<in> set cors then Inr [] else Inr cors))
      else Inr [])"

text \<open>
  What the crawler takes from Python's library: \<^verbatim>\<open>urljoin\<close>, \<^verbatim>\<open>urlparse\<close> (by the four fields
  read), and \<^verbatim>\<open>list(set(xs))\<close>, whose order is the iteration order of a set of strings: it
  follows the strings' hashes, which differ from run to run.
\<close>

record parsed_url =
  scheme :: string
  netloc :: string
  path :: string
  query :: string

record stdlib =
  urljoin :: "string \<Rightarrow> string \<Rightarrow> string"
  urlparse :: "string \<Rightarrow> parsed_url"
  list_of_set :: "string list \<Rightarrow> string list"

text \<open>
  A crawl node by the fields the aggregation reads: \<^verbatim>\<open>url\<close>, \<^verbatim>\<open>domain\<close>, \<^verbatim>\<open>base_url\<close>, the
  dictionary \<^verbatim>\<open>urls\<close> in insertion order, and \<^verbatim>\<open>childs\<close>.
\<close>

datatype HiddenGems =
  HiddenGems (hg_url: string) (hg_domain: string) (hg_base_url: string)
    (hg_urls: "(string \<times> string list) list") (hg_childs: "HiddenGems list")

definition filter_scope :: "stdlib \<Rightarrow> string \<Rightarrow> string list \<Rightarrow> string list" where
  "filter_scope L dn xs = filter (\<lambda>x. dn = netloc (urlparse L x)) xs"

text \<open>\<^verbatim>\<open>normalize_url(src, full_query)\<close> of a node with the given \<^verbatim>\<open>base_url\<close>.\<close>

definition normalize_url :: "stdlib \<Rightarrow> string \<Rightarrow> string \<Rightarrow> bool \<Rightarrow> string" where
  "normalize_url L base src full_query =
     (let u = urlparse L (urljoin L base src) in
      if full_query \<and> query u \<noteq> [] then
        scheme u @ ''://'' @ netloc u @ path u @ ''?'' @ query u
      else scheme u @ ''://'' @ netloc u @ path u)"

fun list_urls :: "stdlib \<Rightarrow> HiddenGems \<Rightarrow> bool \<Rightarrow> bool \<Rightarrow> string list" where
  "list_urls L (HiddenGems u dn base us cs) scope full_query =
     (let result = filter (\<lambda>x. startswith x ''http'') (concat (map snd us))
                     @ concat (map (\<lambda>c. list_urls L c scope False) cs);
          result = (if scope then filter_scope L dn result else result);
          result = map (\<lambda>x. normalize_url L base x full_query) result
      in list_of_set L (sort result))"

subsection \<open>Relations and example values used in the statements\<close>

text \<open>
  \<open>kept b b'\<close>: \<open>b'\<close> is \<open>b\<close> with details appended and the risk possibly raised to HIGH, the
  state unchanged. \<open>forced b b'\<close>: details appended, and either state and risk unchanged or
  forced to OPEN and HIGH.
\<close>

definition kept :: "Bucket \<Rightarrow> Bucket \<Rightarrow> bool" where
  "kept b b' = (cloud b' = cloud b \<and> name b' = name b \<and> domain b' = domain b \<and>
     prefix (details b) (details b') \<and> state b' = state b \<and>
     (risk b' = risk b \<or> risk b' = HIGH))"

definition forced :: "Bucket \<Rightarrow> Bucket \<Rightarrow> bool" where
  "forced b b' = (cloud b' = cloud b \<and> name b' = name b \<and> domain b' = domain b \<and>
     prefix (details b) (details b') \<and>
     (state b' = state b \<and> risk b' = risk b \<or> state b' = OPEN \<and> risk b' = HIGH))"

text \<open>
  When the Azure enumerator lists something. The containers it asks for are the common
  names, the bucket's name and, when different, the base name; a container is listed when
  its listing answers 200, on a blob host. A share is listed when the share listing of a
  file host answers 200; when that request raises, the enumerator returns before it asks
  for any container.
\<close>

definition azure_candidates :: "string \<Rightarrow> Bucket \<Rightarrow> pyval list" where
  "azure_candidates base_name b =
     map Str COMMON_CONTAINERS @ [name b]
       @ (if name b = Str base_name then [] else [Str base_name])"

definition containers_listed :: "env \<Rightarrow> string \<Rightarrow> Bucket \<Rightarrow> bool" where
  "containers_listed e base_name b =
     (contains ''blob.core.windows.net'' (domain b)
      \<and> filter (\<lambda>c. azure_list_container e (domain b) c = Some 200)
            (azure_candidates base_name b) \<noteq> [])"

definition azure_lists :: "env \<Rightarrow> string \<Rightarrow> Bucket \<Rightarrow> bool" where
  "azure_lists e base_name b =
     (if contains ''file.core.windows.net'' (domain b) then
        (case azure_list_shares e (domain b) of
           None \<Rightarrow> False
         | Some st \<Rightarrow> st = 200 \<or> containers_listed e base_name b)
      else containers_listed e base_name b)"

text \<open>An environment in which every call raises.\<close>

definition offline :: env where
  "offline =
     \<lparr>dns_resolve = (\<lambda>h. None), requests_head = (\<lambda>u. None), azure_list_shares = (\<lambda>d. None),
      azure_list_container = (\<lambda>d c. None), google_test_permissions = (\<lambda>n. None),
      aws_get_acl = (\<lambda>n. None)\<rparr>"

text \<open>An environment where only the share listing of Azure answers, with status 200.\<close>

definition shares_listed :: env where
  "shares_listed = offline\<lparr>azure_list_shares := (\<lambda>d. Some 200)\<rparr>"

text \<open>
  An environment where only \<^verbatim>\<open>acme.blob.core.windows.net\<close> resolves and no HTTP request is
  answered.
\<close>

definition only_blob_resolves :: env where
  "only_blob_resolves =
     offline\<lparr>dns_resolve := (\<lambda>h. Some (h = ''acme.blob.core.windows.net''))\<rparr>"

text \<open>A listable answer, and the same answer reached through a 302 to a login page.\<close>

definition listing_response :: response where
  "listing_response =
     \<lparr>status_code = 200, headers = [(''Content-Type'', ''application/xml'')], history = [],
      url = ''http://acme.s3.amazonaws.com/''\<rparr>"

definition login_response :: response where
  "login_response =
     \<lparr>status_code = 200, headers = [(''Content-Type'', ''application/xml'')], history = [302],
      url = ''https://example.com/login''\<rparr>"

subsection \<open>The ACL summary as the specification words it\<close>

text \<open>The five permissions that \<^verbatim>\<open>_aws_acl\<close> knows.\<close>

definition known_permissions :: "string list" where
  "known_permissions = [''READ'', ''READ_ACP'', ''WRITE'', ''WRITE_ACL'', ''FULL_CONTROL'']"

text \<open>
  The specification's map from permission to symbol: READ and READ_ACP to R, WRITE and
  WRITE_ACL to W, FULL_CONTROL to F.
\<close>

definition symbol_of :: "string \<Rightarrow> string option" where
  "symbol_of p =
     (if p = ''READ'' \<or> p = ''READ_ACP'' then Some ''R''
      else if p = ''WRITE'' \<or> p = ''WRITE_ACL'' then Some ''W''
      else if p = ''FULL_CONTROL'' then Some ''F''
      else None)"

text \<open>
  The grantee key and the symbol of a grant, when the grant has the keys its grantee type
  needs and one of the five permissions.
\<close>

definition grant_entry :: "grant \<Rightarrow> (string \<times> string) option" where
  "grant_entry g =
     (case grant_user g of
        Inl x \<Rightarrow> None
      | Inr u \<Rightarrow>
          (case Permission g of
             None \<Rightarrow> None
           | Some p \<Rightarrow> (case symbol_of p of None \<Rightarrow> None | Some s \<Rightarrow> Some (u, s))))"

text \<open>The elements of a list in the order of their first occurrence, each once.\<close>

definition first_occurrences :: "'a list \<Rightarrow> 'a list" where
  "first_occurrences xs = rev (remdups (rev xs))"

text \<open>
  The symbols of one grantee, deduplicated, in discovery order; and one line
  \<^verbatim>\<open>{grantee} [{symbols}]\<close> per grantee, grantees in discovery order.
\<close>

definition grantee_symbols :: "(string \<times> string) list \<Rightarrow> string \<Rightarrow> string" where
  "grantee_symbols es u = first_occurrences (concat (map snd (filter (\<lambda>e. fst e = u) es)))"

definition acl_lines :: "(string \<times> string) list \<Rightarrow> string list" where
  "acl_lines es =
     map (\<lambda>u. u @ '' ['' @ grantee_symbols es u @ '']'') (first_occurrences (map fst es))"

text \<open>The dictionary \<^verbatim>\<open>rights\<close> that this summary describes.\<close>

definition spec_rights :: "(string \<times> string) list \<Rightarrow> (string \<times> string) list" where
  "spec_rights es = map (\<lambda>u. (u, grantee_symbols es u)) (first_occurrences (map fst es))"

text \<open>A grant to a canonical user with a display name.\<close>

definition canonical_grant :: "string \<Rightarrow> string \<Rightarrow> grant" where
  "canonical_grant display p =
     \<lparr>Grantee = Some [(''@xsi:type'', ''CanonicalUser''), (''ID'', ''0123456789abcdef''),
                      (''DisplayName'', display)],
      Permission = Some p\<rparr>"

text \<open>An environment where only the \<^verbatim>\<open>?acl\<close> request answers, with the given list of grants.\<close>

definition acl_answer :: "grant list \<Rightarrow> env" where
  "acl_answer gs =
     offline\<lparr>aws_get_acl :=
       (\<lambda>n. Some (AccessControlPolicy (AccessControlList (Grant (GrantList gs)))))\<rparr>"

text \<open>
  The same for an ACL with a single \<^verbatim>\<open>Grant\<close> element, which \<^verbatim>\<open>xmltodict\<close> parses to a
  dictionary.
\<close>

definition single_grant_answer :: "grant \<Rightarrow> env" where
  "single_grant_answer g =
     offline\<lparr>aws_get_acl :=
       (\<lambda>n. Some (AccessControlPolicy (AccessControlList (Grant (GrantDict g)))))\<rparr>"

text \<open>
  A library for the examples of the crawler: \<open>urlparse\<close> for URLs of the form
  \<^verbatim>\<open>scheme://netloc/path?query\<close>, \<open>urljoin\<close> for an absolute second argument (which it
  returns), and the given iteration order of sets.
\<close>

definition simple_urlparse :: "string \<Rightarrow> parsed_url" where
  "simple_urlparse u =
     (let sch = takeWhile (\<lambda>c. c \<noteq> CHR '':'') u;
          rest = drop (length sch + 3) u;
          nl = takeWhile (\<lambda>c. c \<noteq> CHR ''/'' \<and> c \<noteq> CHR ''?'') rest;
          rest2 = drop (length nl) rest;
          pth = takeWhile (\<lambda>c. c \<noteq> CHR ''?'') rest2
      in \<lparr>scheme = sch, netloc = nl, path = pth, query = drop (length pth + 1) rest2\<rparr>)"

definition absolute_lib :: "(string list \<Rightarrow> string list) \<Rightarrow> stdlib" where
  "absolute_lib order =
     \<lparr>urljoin = (\<lambda>base src. src), urlparse = simple_urlparse, list_of_set = order\<rparr>"

text \<open>
  What every iteration order of sets has in common: \<^verbatim>\<open>list(set(xs))\<close> has the elements of
  \<open>xs\<close>, each once.
\<close>

definition set_order :: "stdlib \<Rightarrow> bool" where
  "set_order L = (\<forall>xs. distinct (list_of_set L xs) \<and> set (list_of_set L xs) = set xs)"

section \<open>Theorems\<close>

subsection \<open>What the enumerators can change\<close>

lemma kept_refl: "kept b b"
  by (simp add: kept_def)

lemma forced_refl: "forced b b"
  by (simp add: forced_def)

lemma forced_trans: "forced a b \<Longrightarrow> forced b c \<Longrightarrow> forced a c"
  unfolding forced_def using prefix_order.trans by metis

lemma kept_trans: "kept a b \<Longrightarrow> kept b c \<Longrightarrow> kept a c"
  unfolding kept_def using prefix_order.trans by metis

lemma permission_rule_kept: "kept (fst bs) (fst (permission_rule p bs))"
  by (simp add: permission_rule_def kept_def)

lemma aws_grant_kept: "aws_grant g st = Inr st' \<Longrightarrow> kept (fst st) (fst st')"
proof -
  assume a: "aws_grant g st = Inr st'"
  obtain b r s where st: "st = (b, r, s)" by (cases st) auto
  from a obtain u p where p: "Permission g = Some p" and u: "grant_user g = Inr u"
    by (auto simp: aws_grant_def st split: sum.splits option.splits)
  obtain b1 s1 where pr: "permission_rule p (b, s) = (b1, s1)"
    by (cases "permission_rule p (b, s)") auto
  from a p u pr have "fst st' = b1"
    by (auto simp: aws_grant_def st split: option.splits)
  moreover from permission_rule_kept[of "(b, s)" p] pr have "kept b b1" by simp
  ultimately show ?thesis by (simp add: st)
qed

lemma aws_loop_kept: "kept (fst st) (fst (fst (aws_loop gs st)))"
proof (induction gs arbitrary: st)
  case Nil
  show ?case by (simp add: kept_refl)
next
  case (Cons g gs)
  show ?case
  proof (cases "aws_grant g st")
    case (Inl x)
    then show ?thesis by (simp add: kept_refl)
  next
    case (Inr st')
    from aws_grant_kept[OF Inr] Cons.IH[of st']
    have "kept (fst st) (fst (fst (aws_loop gs st')))"
      by (rule kept_trans)
    with Inr show ?thesis by simp
  qed
qed

lemma aws_grants_kept: "kept b (fst (aws_grants gs b))"
proof (cases gs)
  case (GrantDict g)
  then show ?thesis by (simp add: aws_grants_def kept_refl)
next
  case (GrantList rs)
  obtain b1 r1 s1 x where l: "aws_loop rs (b, [], None) = ((b1, r1, s1), x)"
    by (cases "aws_loop rs (b, [], None)") auto
  from aws_loop_kept[of "(b, [], None)" rs] l have k: "kept b b1" by simp
  then have "kept b (b1\<lparr>details := details b1 @ rights_details r1\<rparr>)"
    by (auto simp: kept_def prefix_def)
  with k l GrantList show ?thesis by (cases x) (simp_all add: aws_grants_def)
qed

lemma kept_acl: "kept b (b\<lparr>acl := a\<rparr>)"
  by (simp add: kept_def)

lemma aws_acl_kept: "kept b (fst (aws_acl e b))"
proof -
  have g: "kept b (fst (aws_grants gs (b\<lparr>acl := Some (AwsAcl gs)\<rparr>)))" for gs
    using kept_acl aws_grants_kept by (rule kept_trans)
  show ?thesis
    by (simp add: aws_acl_def kept_refl g split_beta split: option.split aws_doc.split
        access_control_policy.split access_control_list.split)
qed

lemma google_acl_kept: "kept b (fst (google_acl e b))"
  by (simp add: google_acl_def kept_def Let_def split: option.split)

lemma azure_blob_forced: "forced b (fst (azure_blob e bn b))"
  by (simp add: azure_blob_def forced_def Let_def split_beta split: sum.split)

lemma azure_acl_forced: "forced b (fst (azure_acl e bn b))"
proof -
  have s: "forced b (b\<lparr>risk := HIGH, state := OPEN, details := details b @ [''List Shares'']\<rparr>)"
    by (simp add: forced_def)
  have "forced b (fst (azure_blob e bn
          (b\<lparr>risk := HIGH, state := OPEN, details := details b @ [''List Shares'']\<rparr>)))"
    using s azure_blob_forced by (rule forced_trans)
  then show ?thesis
    by (simp add: azure_acl_def forced_refl azure_blob_forced split_beta split: option.split)
qed

lemma azure_containers_findings:
  "fst (azure_containers e dn cs f) = f @ filter (\<lambda>c. azure_list_container e dn c = Some 200) cs"
  by (induction cs arbitrary: f) (simp_all add: split_beta)

lemma containers_listed_cong:
  "domain b' = domain b \<Longrightarrow> name b' = name b \<Longrightarrow>
     containers_listed e bn b' = containers_listed e bn b"
  by (simp add: containers_listed_def azure_candidates_def)

lemma azure_lists_cong:
  "domain b' = domain b \<Longrightarrow> name b' = name b \<Longrightarrow> azure_lists e bn b' = azure_lists e bn b"
  using containers_listed_cong[of b' b e bn] by (simp add: azure_lists_def split: option.split)

lemma azure_blob_state:
  "state (fst (azure_blob e bn b)) = (if containers_listed e bn b then OPEN else state b)
   \<and> risk (fst (azure_blob e bn b)) = (if containers_listed e bn b then HIGH else risk b)"
  by (simp add: azure_blob_def containers_listed_def azure_candidates_def Let_def split_beta
      azure_containers_findings split: sum.split)

lemma azure_acl_state:
  "state (fst (azure_acl e bn b)) = (if azure_lists e bn b then OPEN else state b)
   \<and> risk (fst (azure_acl e bn b)) = (if azure_lists e bn b then HIGH else risk b)"
proof (cases "contains ''file.core.windows.net'' (domain b)")
  case False
  then show ?thesis by (simp add: azure_acl_def azure_lists_def azure_blob_state)
next
  case True
  show ?thesis
  proof (cases "azure_list_shares e (domain b)")
    case None
    with True show ?thesis by (simp add: azure_acl_def azure_lists_def)
  next
    case (Some st)
    let ?b1 = "b\<lparr>risk := HIGH, state := OPEN, details := details b @ [''List Shares'']\<rparr>"
    have c: "containers_listed e bn ?b1 = containers_listed e bn b"
      by (rule containers_listed_cong) simp_all
    from True Some show ?thesis
      by (simp add: azure_acl_def azure_lists_def split_beta azure_blob_state c)
  qed
qed


lemma get_rights_cases:
  "(cloud b = ''azure'' \<and> forced b (fst (get_rights e bn b)))
   \<or> (cloud b \<noteq> ''azure'' \<and> state b = OPEN \<and> kept b (fst (get_rights e bn b)))
   \<or> (cloud b \<noteq> ''azure'' \<and> state b \<noteq> OPEN \<and> get_rights e bn b = (b, [], None))"
  by (simp add: get_rights_def azure_acl_forced google_acl_kept aws_acl_kept kept_refl)


subsection \<open>Permutation generator\<close>

lemma permutations_loop_eq:
  "permutations_loop b ls p =
     p @ concat (map (\<lambda>a. format_rules a b @ format_rules b a) ls)"
  by (induction ls arbitrary: p) simp_all

text \<open>
  C2, as the code has it: \<open>generate_permutations\<close> returns the base name followed, for each
  affix in list order, by the six combinations with the affix-first forms before the
  base-first forms: affix-base, affix.base, affixbase, base-affix, base.affix, baseaffix.
  For base \<open>acme\<close> and the single affix \<open>dev\<close> the result is
  acme, dev-acme, dev.acme, devacme, acme-dev, acme.dev, acmedev.
\<close>

theorem generate_permutations_order:
  "generate_permutations b ls =
     b # concat (map (\<lambda>a. [a @ ''-'' @ b, a @ ''.'' @ b, a @ b,
                              b @ ''-'' @ a, b @ ''.'' @ a, b @ a]) ls)
   \<and> generate_permutations ''acme'' [''dev''] =
     [''acme'', ''dev-acme'', ''dev.acme'', ''devacme'', ''acme-dev'', ''acme.dev'', ''acmedev'']"
  by (simp add: generate_permutations_def permutations_loop_eq format_rules_def)

text \<open>
  C2 as the specification words it (base-first forms before affix-first forms) fails on
  the example of the specification itself.
\<close>

theorem generate_permutations_spec_order_counterexample:
  "generate_permutations ''acme'' [''dev''] \<noteq>
     [''acme'', ''acme-dev'', ''acme.dev'', ''acmedev'', ''dev-acme'', ''dev.acme'', ''devacme'']"
  by (simp add: generate_permutations_def format_rules_def)

subsection \<open>Bucket classifier\<close>

lemma status_rules_cloud: "cloud (status_rules bn r b) = cloud b"
  by (simp add: status_rules_def Let_def)

lemma redirect_rule_cloud: "cloud (redirect_rule r b) = cloud b"
  by (simp add: redirect_rule_def Let_def)

lemma status_rules_domain: "domain (status_rules bn r b) = domain b"
  by (simp add: status_rules_def Let_def)

lemma redirect_rule_domain: "domain (redirect_rule r b) = domain b"
  by (simp add: redirect_rule_def Let_def)

lemma status_rules_name: "name (status_rules bn r b) = name b"
  by (simp add: status_rules_def Let_def)

lemma redirect_rule_name: "name (redirect_rule r b) = name b"
  by (simp add: redirect_rule_def Let_def)

lemma status_rules_listable:
  "status_code r = 200 \<Longrightarrow> xml_content r \<Longrightarrow>
     state (status_rules bn r b) = OPEN \<and> risk (status_rules bn r b) = HIGH
     \<and> details (status_rules bn r b) = details b @ [''LIST'']"
  by (simp add: status_rules_def Let_def)

lemma redirect_rule_no_auth:
  "\<not> (first_hop_redirect r \<and> auth_url (url r)) \<Longrightarrow>
     state (redirect_rule r b) = state b \<and> risk (redirect_rule r b) = risk b
     \<and> prefix (details b) (details (redirect_rule r b))"
  by (auto simp: redirect_rule_def Let_def)

lemma redirect_rule_auth:
  "first_hop_redirect r \<Longrightarrow> auth_url (url r) \<Longrightarrow>
     state (redirect_rule r b) = PRIVATE \<and> risk (redirect_rule r b) = LOW"
  by (simp add: redirect_rule_def Let_def)

lemma redirect_rule_details:
  "first_hop_redirect r \<Longrightarrow> details (redirect_rule r b) = details b @ [''Redirect '' @ url r]"
  by (simp add: redirect_rule_def Let_def)

lemma get_rights_prefix: "prefix (details b) (details (fst (get_rights e bn b)))"
  using get_rights_cases[of b e bn] by (auto simp: forced_def kept_def)

lemma get_rights_open_high:
  "state b = OPEN \<Longrightarrow> risk b = HIGH \<Longrightarrow>
     state (fst (get_rights e bn b)) = OPEN \<and> risk (fst (get_rights e bn b)) = HIGH"
  using get_rights_cases[of b e bn] by (auto simp: forced_def kept_def)

lemma listing_response_facts:
  "status_code listing_response = 200 \<and> xml_content listing_response
   \<and> \<not> (first_hop_redirect listing_response \<and> auth_url (url listing_response))"
  by (simp add: listing_response_def xml_content_def first_hop_redirect_def startswith_def)

lemma login_response_facts:
  "first_hop_redirect login_response \<and> auth_url (url login_response)"
  by (simp add: login_response_def first_hop_redirect_def auth_url_def startswith_def)

text \<open>
  C4: for every response with status 200 whose Content-Type header contains
  \<^verbatim>\<open>application/xml\<close>, and with no redirect to a login or signin URL, the bucket that
  \<open>process_status\<close> leaves has state OPEN, risk HIGH, and \<^verbatim>\<open>LIST\<close> among its details (whatever
  the provider's enumerator then does, and also when it raises).
\<close>

theorem process_status_listable:
  assumes "status_code r = 200" and "xml_content r"
    and "\<not> (first_hop_redirect r \<and> auth_url (url r))"
  shows "state (fst (process_status e bn (Some r) b)) = OPEN
       \<and> risk (fst (process_status e bn (Some r) b)) = HIGH
       \<and> ''LIST'' \<in> set (details (fst (process_status e bn (Some r) b)))"
proof -
  let ?c = "redirect_rule r (status_rules bn r b)"
  from assms have c: "state ?c = OPEN" "risk ?c = HIGH"
    using redirect_rule_no_auth[of r "status_rules bn r b"] status_rules_listable[of r bn b]
    by simp_all
  have "''LIST'' \<in> set (details (status_rules bn r b))"
    using status_rules_listable[OF assms(1,2), of bn b] by simp
  moreover have "prefix (details (status_rules bn r b)) (details ?c)"
    using redirect_rule_no_auth[OF assms(3)] by simp
  moreover have "prefix (details ?c) (details (fst (get_rights e bn ?c)))"
    by (rule get_rights_prefix)
  ultimately have "''LIST'' \<in> set (details (fst (get_rights e bn ?c)))"
    using set_mono_prefix by blast
  with get_rights_open_high[OF c, of e bn] show ?thesis
    by (simp add: process_status_def)
qed

theorem process_status_listable_witness:
  "status_code listing_response = 200 \<and> xml_content listing_response
   \<and> \<not> (first_hop_redirect listing_response \<and> auth_url (url listing_response))
   \<and> state (fst (process_status offline ''acme'' (Some listing_response)
        (new_Bucket (Str ''acme'') ''acme.s3.amazonaws.com'' ''aws'' ''AWS Bucket''))) = OPEN
   \<and> risk (fst (process_status offline ''acme'' (Some listing_response)
        (new_Bucket (Str ''acme'') ''acme.s3.amazonaws.com'' ''aws'' ''AWS Bucket''))) = HIGH
   \<and> ''LIST'' \<in> set (details (fst (process_status offline ''acme'' (Some listing_response)
        (new_Bucket (Str ''acme'') ''acme.s3.amazonaws.com'' ''aws'' ''AWS Bucket''))))"
proof -
  have h: "status_code listing_response = 200" "xml_content listing_response"
    "\<not> (first_hop_redirect listing_response \<and> auth_url (url listing_response))"
    using listing_response_facts by simp_all
  show ?thesis
    using h process_status_listable[OF h, of offline "''acme''"
        "new_Bucket (Str ''acme'') ''acme.s3.amazonaws.com'' ''aws'' ''AWS Bucket''"]
    by blast
qed

text \<open>
  C3, as the code has it: when the first hop of the redirect history has status 301 or 302,
  \<open>process_status\<close> appends the detail \<^verbatim>\<open>Redirect {finalUrl}\<close>; and when the final URL contains
  \<^verbatim>\<open>login\<close> or \<^verbatim>\<open>signin\<close>, the redirect rule sets state PRIVATE and risk LOW over whatever the
  status-code rules had set. For every provider but azure that is the result of
  \<open>process_status\<close>, and no enumerator runs. For azure the Azure enumerator runs on that
  result, and the final state and risk are OPEN and HIGH exactly when it lists a share or
  a container, and PRIVATE and LOW otherwise.
\<close>

theorem redirect_override:
  assumes "first_hop_redirect r"
  shows "(''Redirect '' @ url r) \<in> set (details (fst (process_status e bn (Some r) b)))
    \<and> (auth_url (url r) \<longrightarrow>
         state (redirect_rule r (status_rules bn r b)) = PRIVATE
         \<and> risk (redirect_rule r (status_rules bn r b)) = LOW
         \<and> (cloud b \<noteq> ''azure'' \<longrightarrow>
              process_status e bn (Some r) b = (redirect_rule r (status_rules bn r b), [], None))
         \<and> (cloud b = ''azure'' \<longrightarrow>
              process_status e bn (Some r) b
                = azure_acl e bn (redirect_rule r (status_rules bn r b))
              \<and> state (fst (process_status e bn (Some r) b))
                  = (if azure_lists e bn b then OPEN else PRIVATE)
              \<and> risk (fst (process_status e bn (Some r) b))
                  = (if azure_lists e bn b then HIGH else LOW)))"
proof -
  let ?c = "redirect_rule r (status_rules bn r b)"
  have cl: "cloud ?c = cloud b"
    by (simp add: redirect_rule_cloud status_rules_cloud)
  have l: "azure_lists e bn ?c = azure_lists e bn b"
    by (rule azure_lists_cong)
      (simp_all add: redirect_rule_domain status_rules_domain redirect_rule_name status_rules_name)
  have "(''Redirect '' @ url r) \<in> set (details ?c)"
    by (simp add: redirect_rule_details[OF assms])
  then have d: "(''Redirect '' @ url r) \<in> set (details (fst (get_rights e bn ?c)))"
    using get_rights_prefix[of ?c e bn] set_mono_prefix by blast
  have n: "cloud b \<noteq> ''azure'' \<longrightarrow> get_rights e bn ?c = (?c, [], None)"
    if "auth_url (url r)"
    using redirect_rule_auth[OF assms that, of "status_rules bn r b"] cl
    by (simp add: get_rights_def)
  have z: "cloud b = ''azure'' \<longrightarrow> get_rights e bn ?c = azure_acl e bn ?c"
    using cl by (simp add: get_rights_def)
  have a: "cloud b = ''azure'' \<longrightarrow>
      state (fst (get_rights e bn ?c)) = (if azure_lists e bn b then OPEN else PRIVATE)
      \<and> risk (fst (get_rights e bn ?c)) = (if azure_lists e bn b then HIGH else LOW)"
    if "auth_url (url r)"
    using z azure_acl_state[of e bn ?c] l
      redirect_rule_auth[OF assms that, of "status_rules bn r b"]
    by simp
  from d a n z redirect_rule_auth[OF assms, of "status_rules bn r b"] show ?thesis
    by (simp add: process_status_def)
qed

theorem redirect_override_witness:
  "first_hop_redirect login_response \<and> auth_url (url login_response)
   \<and> (''Redirect '' @ url login_response) \<in> set (details (fst (process_status offline ''acme''
        (Some login_response)
        (new_Bucket (Str ''acme'') ''acme.s3.amazonaws.com'' ''aws'' ''AWS Bucket''))))
   \<and> state (fst (process_status offline ''acme'' (Some login_response)
        (new_Bucket (Str ''acme'') ''acme.s3.amazonaws.com'' ''aws'' ''AWS Bucket''))) = PRIVATE
   \<and> risk (fst (process_status offline ''acme'' (Some login_response)
        (new_Bucket (Str ''acme'') ''acme.s3.amazonaws.com'' ''aws'' ''AWS Bucket''))) = LOW
   \<and> azure_lists shares_listed ''acme''
        (new_Bucket (Str ''acme'') ''acme.file.core.windows.net'' ''azure'' ''Storage Files'')
   \<and> state (fst (process_status shares_listed ''acme'' (Some login_response)
        (new_Bucket (Str ''acme'') ''acme.file.core.windows.net'' ''azure'' ''Storage Files'')))
       = OPEN
   \<and> risk (fst (process_status shares_listed ''acme'' (Some login_response)
        (new_Bucket (Str ''acme'') ''acme.file.core.windows.net'' ''azure'' ''Storage Files'')))
       = HIGH
   \<and> \<not> azure_lists offline ''acme''
        (new_Bucket (Str ''acme'') ''acme.file.core.windows.net'' ''azure'' ''Storage Files'')
   \<and> state (fst (process_status offline ''acme'' (Some login_response)
        (new_Bucket (Str ''acme'') ''acme.file.core.windows.net'' ''azure'' ''Storage Files'')))
       = PRIVATE
   \<and> risk (fst (process_status offline ''acme'' (Some login_response)
        (new_Bucket (Str ''acme'') ''acme.file.core.windows.net'' ''azure'' ''Storage Files'')))
       = LOW"
proof -
  let ?aw = "new_Bucket (Str ''acme'') ''acme.s3.amazonaws.com'' ''aws'' ''AWS Bucket''"
  let ?az = "new_Bucket (Str ''acme'') ''acme.file.core.windows.net'' ''azure'' ''Storage Files''"
  let ?c = "redirect_rule login_response (status_rules ''acme'' login_response ?aw)"
  have h: "first_hop_redirect login_response" and a: "auth_url (url login_response)"
    using login_response_facts by simp_all
  have c: "cloud ?aw \<noteq> ''azure''" and z: "cloud ?az = ''azure''"
    by (simp_all add: new_Bucket_def)
  have l1: "azure_lists shares_listed ''acme'' ?az"
    by (simp add: azure_lists_def shares_listed_def offline_def new_Bucket_def startswith_def)
  have l2: "\<not> azure_lists offline ''acme'' ?az"
    by (simp add: azure_lists_def offline_def new_Bucket_def startswith_def)
  from redirect_override[OF h, of offline "''acme''" ?aw] a c
  have d: "(''Redirect '' @ url login_response)
      \<in> set (details (fst (process_status offline ''acme'' (Some login_response) ?aw)))"
    and e: "process_status offline ''acme'' (Some login_response) ?aw = (?c, [], None)"
    and s: "state ?c = PRIVATE" and r: "risk ?c = LOW"
    by blast+
  have 1: "state (fst (process_status offline ''acme'' (Some login_response) ?aw)) = PRIVATE"
    "risk (fst (process_status offline ''acme'' (Some login_response) ?aw)) = LOW"
    by (simp_all only: e fst_conv s r)
  from redirect_override[OF h, of shares_listed "''acme''" ?az] a z
  have "state (fst (process_status shares_listed ''acme'' (Some login_response) ?az))
      = (if azure_lists shares_listed ''acme'' ?az then OPEN else PRIVATE)"
    and "risk (fst (process_status shares_listed ''acme'' (Some login_response) ?az))
      = (if azure_lists shares_listed ''acme'' ?az then HIGH else LOW)"
    by blast+
  with l1 have 2: "state (fst (process_status shares_listed ''acme'' (Some login_response) ?az)) = OPEN"
    "risk (fst (process_status shares_listed ''acme'' (Some login_response) ?az)) = HIGH"
    by (simp_all only: if_True)
  from redirect_override[OF h, of offline "''acme''" ?az] a z
  have "state (fst (process_status offline ''acme'' (Some login_response) ?az))
      = (if azure_lists offline ''acme'' ?az then OPEN else PRIVATE)"
    and "risk (fst (process_status offline ''acme'' (Some login_response) ?az))
      = (if azure_lists offline ''acme'' ?az then HIGH else LOW)"
    by blast+
  with l2 have 3: "state (fst (process_status offline ''acme'' (Some login_response) ?az)) = PRIVATE"
    "risk (fst (process_status offline ''acme'' (Some login_response) ?az)) = LOW"
    by (simp_all only: if_False)
  from h a d 1 l1 2 l2 3 show ?thesis by blast
qed

text \<open>
  C3 as the specification words it fails for an azure bucket: the response is a 302 to a
  login page, and the share listing that \<open>get_rights\<close> then tries answers 200.
\<close>

theorem redirect_override_azure_counterexample:
  "first_hop_redirect login_response \<and> auth_url (url login_response)
   \<and> process_status shares_listed ''acme'' (Some login_response)
        (new_Bucket (Str ''acme'') ''acme.file.core.windows.net'' ''azure'' ''Storage Files'')
     = (\<lparr>name = Str ''acme'', domain = ''acme.file.core.windows.net'', cloud = ''azure'',
         srv_name = ''Storage Files'', state = OPEN, risk = HIGH,
         details = [''LIST'', ''Redirect https://example.com/login'', ''List Shares''],
         acl = None\<rparr>,
        [GetAzureShares ''acme.file.core.windows.net''], None)"
  by (simp add: process_status_def get_rights_def azure_acl_def azure_blob_def shares_listed_def
      offline_def new_Bucket_def redirect_rule_def status_rules_def auth_url_def
      login_response_def first_hop_redirect_def xml_content_def startswith_def)

subsection \<open>Dispatch of the enumerators\<close>

lemma google_acl_trace: "fst (snd (google_acl e b)) = [GetGoogleIam (name b)]"
  by (simp add: google_acl_def Let_def split: option.split)

lemma aws_acl_trace: "fst (snd (aws_acl e b)) = [GetAwsAcl (name b)]"
  by (simp add: aws_acl_def split_beta split: option.split aws_doc.split
      access_control_policy.split access_control_list.split)

lemma azure_containers_requests:
  "snd (azure_containers e dn cs f) = map (GetAzureContainer dn) cs"
  by (induction cs arbitrary: f) (simp_all add: split_beta)

lemma azure_blob_requests:
  "contains ''blob.core.windows.net'' (domain b) \<Longrightarrow> fst (snd (azure_blob e bn b)) \<noteq> []"
  by (simp add: azure_blob_def Let_def split_beta azure_containers_requests split: sum.split)

lemma azure_acl_requests:
  assumes "contains ''file.core.windows.net'' (domain b) \<or> contains ''blob.core.windows.net'' (domain b)"
  shows "fst (snd (azure_acl e bn b)) \<noteq> []"
proof (cases "contains ''file.core.windows.net'' (domain b)")
  case True
  then show ?thesis by (simp add: azure_acl_def split_beta split: option.split)
next
  case False
  with assms show ?thesis by (simp add: azure_acl_def azure_blob_requests)
qed

text \<open>
  C9: \<open>get_rights\<close> dispatches by provider. For azure it is the Azure enumerator, whatever
  the state, and that enumerator issues a request whenever the domain is a file or a blob
  host; for google and aws it is the provider's enumerator when the state is OPEN and
  does nothing otherwise; for generic it does nothing. The Google and the AWS enumerator
  each issue their one request whenever they run.
\<close>

theorem get_rights_dispatch:
  "(cloud b = ''azure'' \<longrightarrow> get_rights e bn b = azure_acl e bn b)
   \<and> (cloud b = ''google'' \<longrightarrow>
        get_rights e bn b = (if state b = OPEN then google_acl e b else (b, [], None)))
   \<and> (cloud b = ''aws'' \<longrightarrow>
        get_rights e bn b = (if state b = OPEN then aws_acl e b else (b, [], None)))
   \<and> (cloud b = ''generic'' \<longrightarrow> get_rights e bn b = (b, [], None))
   \<and> (contains ''file.core.windows.net'' (domain b)
        \<or> contains ''blob.core.windows.net'' (domain b)
        \<longrightarrow> fst (snd (azure_acl e bn b)) \<noteq> [])
   \<and> fst (snd (google_acl e b)) = [GetGoogleIam (name b)]
   \<and> fst (snd (aws_acl e b)) = [GetAwsAcl (name b)]"
  using azure_acl_requests[of b e bn]
  by (simp add: get_rights_def google_acl_trace aws_acl_trace)

theorem get_rights_dispatch_witness:
  "get_rights offline ''acme'' (new_Bucket (Str ''acme'') ''acme.file.core.windows.net'' ''azure'' ''Storage Files'')
     = azure_acl offline ''acme'' (new_Bucket (Str ''acme'') ''acme.file.core.windows.net'' ''azure'' ''Storage Files'')
   \<and> get_rights offline ''acme'' ((new_Bucket (Str ''acme'') ''acme.appspot.com'' ''google'' ''Google App Engine'')\<lparr>state := OPEN\<rparr>)
     = google_acl offline ((new_Bucket (Str ''acme'') ''acme.appspot.com'' ''google'' ''Google App Engine'')\<lparr>state := OPEN\<rparr>)
   \<and> get_rights offline ''acme'' ((new_Bucket (Str ''acme'') ''acme.s3.amazonaws.com'' ''aws'' ''AWS Bucket'')\<lparr>state := PRIVATE\<rparr>)
     = ((new_Bucket (Str ''acme'') ''acme.s3.amazonaws.com'' ''aws'' ''AWS Bucket'')\<lparr>state := PRIVATE\<rparr>, [], None)
   \<and> get_rights offline ''acme'' ((new_Bucket (Str ''acme'') ''acme.example.com'' ''generic'' ''Generic'')\<lparr>state := OPEN\<rparr>)
     = ((new_Bucket (Str ''acme'') ''acme.example.com'' ''generic'' ''Generic'')\<lparr>state := OPEN\<rparr>, [], None)"
proof -
  let ?az = "new_Bucket (Str ''acme'') ''acme.file.core.windows.net'' ''azure'' ''Storage Files''"
  let ?go = "(new_Bucket (Str ''acme'') ''acme.appspot.com'' ''google'' ''Google App Engine'')\<lparr>state := OPEN\<rparr>"
  let ?aw = "(new_Bucket (Str ''acme'') ''acme.s3.amazonaws.com'' ''aws'' ''AWS Bucket'')\<lparr>state := PRIVATE\<rparr>"
  let ?ge = "(new_Bucket (Str ''acme'') ''acme.example.com'' ''generic'' ''Generic'')\<lparr>state := OPEN\<rparr>"
  have c: "cloud ?az = ''azure''" "cloud ?go = ''google''" "state ?go = OPEN"
    "cloud ?aw = ''aws''" "state ?aw \<noteq> OPEN" "cloud ?ge = ''generic''"
    by (simp_all add: new_Bucket_def)
  from get_rights_dispatch[of ?az offline "''acme''"] c(1)
  have 1: "get_rights offline ''acme'' ?az = azure_acl offline ''acme'' ?az" by blast
  from get_rights_dispatch[of ?go offline "''acme''"] c(2,3)
  have 2: "get_rights offline ''acme'' ?go = google_acl offline ?go" by simp
  from get_rights_dispatch[of ?aw offline "''acme''"] c(4,5)
  have 3: "get_rights offline ''acme'' ?aw = (?aw, [], None)" by simp
  from get_rights_dispatch[of ?ge offline "''acme''"] c(6)
  have 4: "get_rights offline ''acme'' ?ge = (?ge, [], None)" by blast
  from 1 2 3 4 show ?thesis by blast
qed

subsection \<open>Worker\<close>

lemma azure_containers_trace:
  "Head u \<notin> set (snd (azure_containers e dn cs f))"
  by (induction cs arbitrary: f) (simp_all add: split_beta)

lemma azure_blob_trace: "Head u \<notin> set (fst (snd (azure_blob e bn b)))"
  by (simp add: azure_blob_def Let_def split_beta azure_containers_trace split: sum.split)

lemma azure_acl_trace: "Head u \<notin> set (fst (snd (azure_acl e bn b)))"
  by (simp add: azure_acl_def split_beta azure_blob_trace split: option.split)

lemma get_rights_trace: "Head u \<notin> set (fst (snd (get_rights e bn b)))"
  by (simp add: get_rights_def azure_acl_trace google_acl_trace aws_acl_trace)

lemma process_status_trace: "Head u \<notin> set (fst (snd (process_status e bn resp b)))"
  by (simp add: process_status_def get_rights_trace split: option.split)

lemma get_rights_domain: "domain (fst (get_rights e bn b)) = domain b"
  using get_rights_cases[of b e bn] by (auto simp: forced_def kept_def)

lemma process_status_domain: "domain (fst (process_status e bn resp b)) = domain b"
  by (simp add: process_status_def get_rights_domain status_rules_domain redirect_rule_domain
      split: option.split)

lemma process_status_no_response:
  "process_status e bn None b = (b\<lparr>state := DOMAIN\<rparr>, [], None)"
  by (simp add: process_status_def)

lemma worker_skip:
  "\<not> check_dns e dn \<Longrightarrow>
     search_buckets_worker e bn cl ((srv, dn, nm) # q) results =
       (fst (search_buckets_worker e bn cl q results),
        Resolve dn # fst (snd (search_buckets_worker e bn cl q results)),
        snd (snd (search_buckets_worker e bn cl q results)))"
  by (simp add: split_beta)


lemma new_Bucket_domain: "domain (new_Bucket nm dn cl srv) = dn"
  by (simp add: new_Bucket_def)

lemma worker_step:
  "search_buckets_worker e bn cl ((srv, dn, nm) # q) results =
     (if \<not> check_dns e dn then
        (fst (search_buckets_worker e bn cl q results),
         Resolve dn # fst (snd (search_buckets_worker e bn cl q results)),
         snd (snd (search_buckets_worker e bn cl q results)))
      else if check_host e dn = None \<and> cl \<noteq> ''azure'' then
        (fst (search_buckets_worker e bn cl q results),
         Resolve dn # Head (''http://'' @ dn) # fst (snd (search_buckets_worker e bn cl q results)),
         snd (snd (search_buckets_worker e bn cl q results)))
      else if snd (snd (process_status e bn (check_host e dn) (new_Bucket (Str nm) dn cl srv))) \<noteq> None then
        (results,
         Resolve dn # Head (''http://'' @ dn)
           # fst (snd (process_status e bn (check_host e dn) (new_Bucket (Str nm) dn cl srv))),
         snd (snd (process_status e bn (check_host e dn) (new_Bucket (Str nm) dn cl srv))))
      else
        (fst (search_buckets_worker e bn cl q
               (results @ [fst (process_status e bn (check_host e dn) (new_Bucket (Str nm) dn cl srv))])),
         Resolve dn # Head (''http://'' @ dn)
           # fst (snd (process_status e bn (check_host e dn) (new_Bucket (Str nm) dn cl srv)))
           @ fst (snd (search_buckets_worker e bn cl q
               (results @ [fst (process_status e bn (check_host e dn) (new_Bucket (Str nm) dn cl srv))]))),
         snd (snd (search_buckets_worker e bn cl q
               (results @ [fst (process_status e bn (check_host e dn) (new_Bucket (Str nm) dn cl srv))])))))"
  by (auto simp: split_beta Let_def split: option.splits)

lemma worker_results:
  "b \<in> set (fst (search_buckets_worker e bn cl q results)) \<Longrightarrow>
     b \<in> set results \<or> check_dns e (domain b)"
proof (induction q arbitrary: results)
  case Nil
  then show ?case by simp
next
  case (Cons w q)
  obtain srv dn nm where w: "w = (srv, dn, nm)" by (cases w) auto
  let ?p = "process_status e bn (check_host e dn) (new_Bucket (Str nm) dn cl srv)"
  have d: "domain (fst ?p) = dn"
    by (simp add: process_status_domain new_Bucket_domain)
  from Cons.prems show ?case
    unfolding w worker_step
    using Cons.IH[of results] Cons.IH[of "results @ [fst ?p]"] d
    by (auto split: if_splits)
qed

lemma worker_heads:
  "Head (''http://'' @ h) \<in> set (fst (snd (search_buckets_worker e bn cl q results))) \<Longrightarrow>
     check_dns e h"
proof (induction q arbitrary: results)
  case Nil
  then show ?case by simp
next
  case (Cons w q)
  obtain srv dn nm where w: "w = (srv, dn, nm)" by (cases w) auto
  let ?p = "process_status e bn (check_host e dn) (new_Bucket (Str nm) dn cl srv)"
  from Cons.prems show ?case
    unfolding w worker_step
    using Cons.IH[of results] Cons.IH[of "results @ [fst ?p]"]
      process_status_trace[of "''http://'' @ h" e bn "check_host e dn" "new_Bucket (Str nm) dn cl srv"]
    by (auto split: if_splits)
qed


lemma status_rules_state: "state (status_rules bn r b) \<in> {OPEN, PRIVATE, UNKNOWN}"
  by (simp add: status_rules_def Let_def)

lemma redirect_rule_state: "state (redirect_rule r b) = state b \<or> state (redirect_rule r b) = PRIVATE"
  by (simp add: redirect_rule_def Let_def)

lemma get_rights_state:
  "state (fst (get_rights e bn b)) = state b \<or> state (fst (get_rights e bn b)) = OPEN"
  using get_rights_cases[of b e bn] by (auto simp: forced_def kept_def)

lemma process_status_response_state:
  "state (fst (process_status e bn (Some r) b)) \<noteq> DOMAIN"
proof -
  let ?c = "redirect_rule r (status_rules bn r b)"
  from status_rules_state[of bn r b] redirect_rule_state[of r "status_rules bn r b"]
  have "state ?c \<in> {OPEN, PRIVATE, UNKNOWN}" by auto
  with get_rights_state[of e bn ?c] show ?thesis
    by (auto simp: process_status_def)
qed

lemma worker_domain_azure:
  "b \<in> set (fst (search_buckets_worker e bn cl q results)) \<Longrightarrow>
     b \<in> set results \<or> state b \<noteq> DOMAIN \<or> cl = ''azure''"
proof (induction q arbitrary: results)
  case Nil
  then show ?case by simp
next
  case (Cons w q)
  obtain srv dn nm where w: "w = (srv, dn, nm)" by (cases w) auto
  let ?p = "process_status e bn (check_host e dn) (new_Bucket (Str nm) dn cl srv)"
  have d: "state (fst ?p) \<noteq> DOMAIN \<or> check_host e dn = None"
    using process_status_response_state by (cases "check_host e dn") auto
  from Cons.prems show ?case
    unfolding w worker_step
    using Cons.IH[of results] Cons.IH[of "results @ [fst ?p]"] d
    by (auto split: if_splits)
qed

text \<open>
  C1, as the code has it: a candidate whose DNS check fails is skipped. The worker issues
  no HTTP request for it and appends no result: every bucket in the results has a domain
  that resolved, and every HEAD request went to a host that resolved. State DOMAIN is what
  \<open>process_status\<close> gives, with risk and details unchanged and no enumeration, when it is
  handed no HTTP response; among the results only buckets of provider azure have it.
\<close>

theorem dns_failure_skips_candidate:
  "(\<not> check_dns e dn \<longrightarrow>
      search_buckets_worker e bn cl ((srv, dn, nm) # q) results =
        (fst (search_buckets_worker e bn cl q results),
         Resolve dn # fst (snd (search_buckets_worker e bn cl q results)),
         snd (snd (search_buckets_worker e bn cl q results))))
   \<and> (\<forall>b \<in> set (fst (search_buckets_worker e bn cl q [])). check_dns e (domain b))
   \<and> (\<forall>h. Head (''http://'' @ h) \<in> set (fst (snd (search_buckets_worker e bn cl q [])))
          \<longrightarrow> check_dns e h)
   \<and> process_status e bn None b0 = (b0\<lparr>state := DOMAIN\<rparr>, [], None)
   \<and> (\<forall>b \<in> set (fst (search_buckets_worker e bn cl q [])). state b = DOMAIN \<longrightarrow> cl = ''azure'')"
proof (intro conjI impI ballI allI)
  assume "\<not> check_dns e dn"
  then show "search_buckets_worker e bn cl ((srv, dn, nm) # q) results =
        (fst (search_buckets_worker e bn cl q results),
         Resolve dn # fst (snd (search_buckets_worker e bn cl q results)),
         snd (snd (search_buckets_worker e bn cl q results)))"
    by (rule worker_skip)
next
  fix b assume "b \<in> set (fst (search_buckets_worker e bn cl q []))"
  from worker_results[OF this] show "check_dns e (domain b)" by simp
next
  fix h assume "Head (''http://'' @ h) \<in> set (fst (snd (search_buckets_worker e bn cl q [])))"
  then show "check_dns e h" by (rule worker_heads)
next
  show "process_status e bn None b0 = (b0\<lparr>state := DOMAIN\<rparr>, [], None)"
    by (rule process_status_no_response)
next
  fix b assume "b \<in> set (fst (search_buckets_worker e bn cl q []))" and "state b = DOMAIN"
  with worker_domain_azure[of b e bn cl q "[]"] show "cl = ''azure''" by simp
qed

theorem dns_failure_skips_candidate_witness:
  "\<not> check_dns only_blob_resolves ''acme.file.core.windows.net''
   \<and> search_buckets_worker only_blob_resolves ''acme'' ''azure''
        [(''Storage Files'', ''acme.file.core.windows.net'', ''acme''),
         (''Storage Blobs'', ''acme.blob.core.windows.net'', ''acme'')] []
     = ([(new_Bucket (Str ''acme'') ''acme.blob.core.windows.net'' ''azure'' ''Storage Blobs'')
            \<lparr>state := DOMAIN\<rparr>],
        [Resolve ''acme.file.core.windows.net'', Resolve ''acme.blob.core.windows.net'',
         Head ''http://acme.blob.core.windows.net''], None)"
proof -
  let ?q = "[(''Storage Blobs'', ''acme.blob.core.windows.net'', ''acme'')]"
  have n: "\<not> check_dns only_blob_resolves ''acme.file.core.windows.net''"
    by (simp add: check_dns_def only_blob_resolves_def offline_def)
  have r: "search_buckets_worker only_blob_resolves ''acme'' ''azure'' ?q []
     = ([(new_Bucket (Str ''acme'') ''acme.blob.core.windows.net'' ''azure'' ''Storage Blobs'')
            \<lparr>state := DOMAIN\<rparr>],
        [Resolve ''acme.blob.core.windows.net'', Head ''http://acme.blob.core.windows.net''], None)"
    by (simp add: check_dns_def check_host_def only_blob_resolves_def offline_def process_status_def)
  from dns_failure_skips_candidate[of only_blob_resolves "''acme.file.core.windows.net''" "''acme''"
      "''azure''" "''Storage Files''" "''acme''" ?q "[]"] n
  have "search_buckets_worker only_blob_resolves ''acme'' ''azure''
          ((''Storage Files'', ''acme.file.core.windows.net'', ''acme'') # ?q) [] =
        (fst (search_buckets_worker only_blob_resolves ''acme'' ''azure'' ?q []),
         Resolve ''acme.file.core.windows.net''
           # fst (snd (search_buckets_worker only_blob_resolves ''acme'' ''azure'' ?q [])),
         snd (snd (search_buckets_worker only_blob_resolves ''acme'' ''azure'' ?q [])))"
    by blast
  then have "search_buckets_worker only_blob_resolves ''acme'' ''azure''
          ((''Storage Files'', ''acme.file.core.windows.net'', ''acme'') # ?q) [] =
     ([(new_Bucket (Str ''acme'') ''acme.blob.core.windows.net'' ''azure'' ''Storage Blobs'')
            \<lparr>state := DOMAIN\<rparr>],
        [Resolve ''acme.file.core.windows.net'', Resolve ''acme.blob.core.windows.net'',
         Head ''http://acme.blob.core.windows.net''], None)"
    unfolding r by (simp only: fst_conv snd_conv)
  with n show ?thesis by blast
qed


text \<open>
  C1 as the specification words it fails: for a candidate whose DNS check fails the worker
  yields no bucket at all, so none with state DOMAIN.
\<close>

theorem dns_failure_counterexample:
  "\<not> check_dns offline ''acme.file.core.windows.net''
   \<and> search_buckets_worker offline ''acme'' ''azure''
        [(''Storage Files'', ''acme.file.core.windows.net'', ''acme'')] []
     = ([], [Resolve ''acme.file.core.windows.net''], None)"
  by (simp add: check_dns_def offline_def)

subsection \<open>AWS ACL summary\<close>

lemma contains_single: "contains [c] s = (c \<in> set s)"
  by (induction s) (auto simp: startswith_def)

lemma update_absent: "k \<notin> fst ` set al \<Longrightarrow> AList.update k v al = al @ [(k, v)]"
  by (induction al) auto

lemma update_keyed:
  "distinct xs \<Longrightarrow> k \<in> set xs \<Longrightarrow>
     AList.update k v (map (\<lambda>x. (x, f x)) xs) = map (\<lambda>x. (x, if x = k then v else f x)) xs"
  by (induction xs) (auto simp: update_absent image_image)

lemma map_of_keyed: "map_of (map (\<lambda>x. (x, f x)) xs) k = (if k \<in> set xs then Some (f k) else None)"
  by (induction xs) auto

lemma first_occurrences_snoc:
  "first_occurrences (xs @ [x]) = (if x \<in> set xs then first_occurrences xs else first_occurrences xs @ [x])"
  by (simp add: first_occurrences_def)

lemma set_first_occurrences: "set (first_occurrences xs) = set xs"
  by (simp add: first_occurrences_def)

lemma distinct_first_occurrences: "distinct (first_occurrences xs)"
  by (simp add: first_occurrences_def)

lemma grantee_symbols_snoc:
  "grantee_symbols (es @ [(u, [c])]) v =
     (if v = u then (if c \<in> set (grantee_symbols es u) then grantee_symbols es u
                      else grantee_symbols es u @ [c])
      else grantee_symbols es v)"
  by (auto simp: grantee_symbols_def first_occurrences_snoc set_first_occurrences)

lemma spec_rights_snoc:
  "spec_rights (es @ [(u, [c])]) = record_symbol u [c] (spec_rights es)"
proof (cases "u \<in> fst ` set es")
  case False
  then have m: "map_of (spec_rights es) u = None"
    by (simp add: spec_rights_def map_of_keyed set_first_occurrences)
  have k: "u \<notin> fst ` set (spec_rights es)"
    using False by (simp add: spec_rights_def image_image set_first_occurrences)
  have "filter (\<lambda>e. fst e = u) es = []"
    using False by (force simp: filter_empty_conv)
  then have g: "grantee_symbols es u = []"
    by (simp add: grantee_symbols_def first_occurrences_def)
  have "map (\<lambda>v. (v, grantee_symbols (es @ [(u, [c])]) v)) (first_occurrences (map fst es))
      = map (\<lambda>v. (v, grantee_symbols es v)) (first_occurrences (map fst es))"
    using False by (intro map_cong) (auto simp: grantee_symbols_snoc set_first_occurrences)
  then have "spec_rights (es @ [(u, [c])]) = spec_rights es @ [(u, [c])]"
    using False g by (simp add: spec_rights_def first_occurrences_snoc grantee_symbols_snoc)
  also have "\<dots> = record_symbol u [c] (spec_rights es)"
    using m k by (simp add: record_symbol_def update_absent)
  finally show ?thesis .
next
  case True
  then have m: "map_of (spec_rights es) u = Some (grantee_symbols es u)"
    by (simp add: spec_rights_def map_of_keyed set_first_occurrences)
  from True have fo: "first_occurrences (map fst (es @ [(u, [c])])) = first_occurrences (map fst es)"
    by (simp add: first_occurrences_snoc)
  show ?thesis
  proof (cases "c \<in> set (grantee_symbols es u)")
    case c: True
    then have "grantee_symbols (es @ [(u, [c])]) = grantee_symbols es"
      by (intro ext) (simp add: grantee_symbols_snoc)
    with c m fo show ?thesis
      by (simp add: record_symbol_def contains_single spec_rights_def)
  next
    case c: False
    then have "grantee_symbols (es @ [(u, [c])]) =
        (\<lambda>v. if v = u then grantee_symbols es u @ [c] else grantee_symbols es v)"
      by (intro ext) (simp add: grantee_symbols_snoc)
    with c m fo True show ?thesis
      by (simp add: record_symbol_def contains_single spec_rights_def update_keyed
          distinct_first_occurrences set_first_occurrences)
  qed
qed


lemma grant_entry_step:
  assumes "grant_entry g = Some (u, s)"
  shows "\<exists>b'. aws_grant g (b, r, sy) = Inr (b', record_symbol u s r, Some s)"
    and "\<exists>c. s = [c]"
proof -
  from assms obtain p where p: "grant_user g = Inr u" "Permission g = Some p" "symbol_of p = Some s"
    by (auto simp: grant_entry_def split: sum.splits option.splits)
  from p(3) show "\<exists>c. s = [c]"
    by (auto simp: symbol_of_def split: if_splits)
  from p(3) have "snd (permission_rule p (b, sy)) = Some s"
    by (auto simp: symbol_of_def permission_rule_def split: if_splits)
  then obtain b' where "permission_rule p (b, sy) = (b', Some s)"
    by (cases "permission_rule p (b, sy)") auto
  with p(1,2) show "\<exists>b'. aws_grant g (b, r, sy) = Inr (b', record_symbol u s r, Some s)"
    by (simp add: aws_grant_def)
qed

lemma aws_loop_entries:
  "map grant_entry gs = map Some es \<Longrightarrow>
     \<exists>b' sy'. aws_loop gs (b, r, sy) =
        ((b', fold (\<lambda>e. record_symbol (fst e) (snd e)) es r, sy'), None)"
proof (induction gs arbitrary: es b r sy)
  case Nil
  then show ?case by simp
next
  case (Cons g gs)
  from Cons.prems obtain e es' where es: "es = e # es'" "grant_entry g = Some e"
    "map grant_entry gs = map Some es'"
    by (cases es) auto
  obtain u s where e: "e = (u, s)" by (cases e) auto
  from grant_entry_step(1)[OF es(2)[unfolded e], of b r sy]
  obtain b1 where st: "aws_grant g (b, r, sy) = Inr (b1, record_symbol u s r, Some s)" by blast
  from Cons.IH[OF es(3), of b1 "record_symbol u s r" "Some s"] st show ?case
    by (simp add: es(1) e)
qed

lemma fold_record_symbol:
  "\<forall>e \<in> set es. \<exists>c. snd e = [c] \<Longrightarrow>
     fold (\<lambda>e. record_symbol (fst e) (snd e)) es [] = spec_rights es"
proof (induction es rule: rev_induct)
  case Nil
  show ?case by (simp add: spec_rights_def first_occurrences_def)
next
  case (snoc e es)
  obtain u s where e: "e = (u, s)" by (cases e) auto
  from snoc.prems e obtain c where s: "s = [c]" by auto
  from snoc show ?case by (simp add: e s spec_rights_snoc)
qed

lemma rights_details_spec: "rights_details (spec_rights es) = acl_lines es"
  by (simp add: rights_details_def spec_rights_def acl_lines_def o_def)

lemma permission_rule_details: "details (fst (permission_rule p bs)) = details (fst bs)"
  by (simp add: permission_rule_def)

lemma aws_grant_bucket:
  assumes "aws_grant g st = Inr st'"
  shows "\<exists>p. fst st' = fst (permission_rule p (fst st, snd (snd st)))"
proof -
  obtain b r s where st: "st = (b, r, s)" by (cases st) auto
  from assms obtain u p where p: "Permission g = Some p" and u: "grant_user g = Inr u"
    by (auto simp: aws_grant_def st split: sum.splits option.splits)
  obtain b1 s1 where pr: "permission_rule p (b, s) = (b1, s1)"
    by (cases "permission_rule p (b, s)") auto
  from assms p u pr have "fst st' = b1"
    by (auto simp: aws_grant_def st split: option.splits)
  with pr show ?thesis by (auto simp: st intro: exI[of _ p])
qed

lemma aws_grant_details: "aws_grant g st = Inr st' \<Longrightarrow> details (fst st') = details (fst st)"
  using aws_grant_bucket[of g st st'] permission_rule_details by auto

lemma aws_loop_details: "details (fst (fst (aws_loop gs st))) = details (fst st)"
proof (induction gs arbitrary: st)
  case Nil
  show ?case by simp
next
  case (Cons g gs)
  show ?case
  proof (cases "aws_grant g st")
    case (Inl x)
    then show ?thesis by simp
  next
    case (Inr st')
    with Cons.IH[of st'] aws_grant_details[OF Inr] show ?thesis by simp
  qed
qed

text \<open>
  The list path. For a list of grants that each have their grantee key and one of the five
  permissions, with \<open>es\<close> their (grantee, symbol) pairs in order, \<open>_aws_acl\<close> raises nothing
  and appends exactly the lines \<^verbatim>\<open>{grantee} [{symbols}]\<close>, one per grantee in discovery order,
  the symbols of a grantee deduplicated and in discovery order. A READ grant and then a
  WRITE grant for the display name alice give the single line \<^verbatim>\<open>alice [RW]\<close>.
\<close>

lemma aws_acl_lines:
  assumes "aws_get_acl e (name b) = Some (AccessControlPolicy (AccessControlList (Grant (GrantList gs))))"
    and "map grant_entry gs = map Some es"
  shows "snd (snd (aws_acl e b)) = None
       \<and> details (fst (aws_acl e b)) = details b @ acl_lines es
       \<and> length (acl_lines es) = card (fst ` set es)"
proof -
  let ?b = "b\<lparr>acl := Some (AwsAcl (GrantList gs))\<rparr>"
  from aws_loop_entries[OF assms(2), of ?b "[]" None]
  obtain b' sy' where l: "aws_loop gs (?b, [], None) =
      ((b', fold (\<lambda>e. record_symbol (fst e) (snd e)) es [], sy'), None)" by blast
  have "\<forall>e \<in> set es. \<exists>c. snd e = [c]"
  proof
    fix e assume "e \<in> set es"
    then have "Some e \<in> set (map grant_entry gs)" by (simp add: assms(2))
    then obtain g where "grant_entry g = Some e" by auto
    from grant_entry_step(2)[of g "fst e" "snd e"] this show "\<exists>c. snd e = [c]" by simp
  qed
  then have f: "fold (\<lambda>e. record_symbol (fst e) (snd e)) es [] = spec_rights es"
    by (rule fold_record_symbol)
  from aws_loop_details[of gs "(?b, [], None)"] l have d: "details b' = details b" by simp
  have g: "aws_grants (GrantList gs) ?b = (b'\<lparr>details := details b @ acl_lines es\<rparr>, None)"
    by (simp add: aws_grants_def l f rights_details_spec d)
  have "length (acl_lines es) = card (fst ` set es)"
    by (simp add: acl_lines_def first_occurrences_def distinct_card[symmetric])
  with g assms(1) show ?thesis by (simp add: aws_acl_def)
qed


lemma aws_acl_lines_alice:
  "map grant_entry [canonical_grant ''alice'' ''READ'', canonical_grant ''alice'' ''WRITE'']
     = map Some [(''alice'', ''R''), (''alice'', ''W'')]
   \<and> snd (snd (aws_acl
        (acl_answer [canonical_grant ''alice'' ''READ'', canonical_grant ''alice'' ''WRITE''])
        (new_Bucket (Str ''acme'') ''acme.s3.amazonaws.com'' ''aws'' ''AWS Bucket''))) = None
   \<and> details (fst (aws_acl
        (acl_answer [canonical_grant ''alice'' ''READ'', canonical_grant ''alice'' ''WRITE''])
        (new_Bucket (Str ''acme'') ''acme.s3.amazonaws.com'' ''aws'' ''AWS Bucket'')))
     = [''alice [RW]'']"
proof -
  let ?gs = "[canonical_grant ''alice'' ''READ'', canonical_grant ''alice'' ''WRITE'']"
  let ?es = "[(''alice'', ''R''), (''alice'', ''W'')]"
  let ?b = "new_Bucket (Str ''acme'') ''acme.s3.amazonaws.com'' ''aws'' ''AWS Bucket''"
  have h1: "aws_get_acl (acl_answer ?gs) (name ?b)
      = Some (AccessControlPolicy (AccessControlList (Grant (GrantList ?gs))))"
    by (simp add: acl_answer_def)
  have h2: "map grant_entry ?gs = map Some ?es"
    by (simp add: grant_entry_def grant_user_def canonical_grant_def symbol_of_def)
  have l: "acl_lines ?es = [''alice [RW]'']"
    by (simp add: acl_lines_def grantee_symbols_def first_occurrences_def)
  have d: "details ?b = []" by (simp add: new_Bucket_def)
  from aws_acl_lines[OF h1 h2] h2 show ?thesis
    unfolding l d by simp
qed

text \<open>The three kinds of grantee key.\<close>

lemma grant_user_kinds:
  "grant_user (canonical_grant ''alice'' ''READ'') = Inr ''alice''
   \<and> grant_user \<lparr>Grantee = Some [(''@xsi:type'', ''Group''),
          (''URI'', ''http://acs.amazonaws.com/groups/global/AllUsers'')],
        Permission = Some ''READ''\<rparr> = Inr ''AllUsers''
   \<and> grant_user \<lparr>Grantee = Some [(''@xsi:type'', ''CanonicalUser''),
          (''ID'', ''0123456789abcdef'')],
        Permission = Some ''READ''\<rparr> = Inr ''01234567''
   \<and> grant_user \<lparr>Grantee = Some [(''@xsi:type'', ''Group'')], Permission = Some ''READ''\<rparr>
       = Inl KeyError"
  by (simp add: grant_user_def canonical_grant_def)

text \<open>
  C8 asks for one line per grantee for every grant list. An ACL with a single grant parses
  to a dictionary, not to a list; the loop of \<open>_aws_acl\<close> then iterates its keys and raises
  TypeError at the first one: no line is appended, where the list path gives the line of
  the grantee.
\<close>

theorem aws_acl_single_grant:
  assumes "aws_get_acl e (name b)
      = Some (AccessControlPolicy (AccessControlList (Grant (GrantDict g))))"
    and "Grantee g \<noteq> None \<or> Permission g \<noteq> None"
  shows "aws_acl e b
      = (b\<lparr>acl := Some (AwsAcl (GrantDict g))\<rparr>, [GetAwsAcl (name b)], Some TypeError)"
  using assms by (auto simp: aws_acl_def aws_grants_def)

theorem aws_acl_single_grant_witness:
  "Grantee (canonical_grant ''owner'' ''FULL_CONTROL'') \<noteq> None
   \<and> aws_acl (single_grant_answer (canonical_grant ''owner'' ''FULL_CONTROL''))
        (new_Bucket (Str ''acme'') ''acme.s3.amazonaws.com'' ''aws'' ''AWS Bucket'')
     = ((new_Bucket (Str ''acme'') ''acme.s3.amazonaws.com'' ''aws'' ''AWS Bucket'')
          \<lparr>acl := Some (AwsAcl (GrantDict (canonical_grant ''owner'' ''FULL_CONTROL'')))\<rparr>,
        [GetAwsAcl (Str ''acme'')], Some TypeError)
   \<and> details ((new_Bucket (Str ''acme'') ''acme.s3.amazonaws.com'' ''aws'' ''AWS Bucket'')
          \<lparr>acl := Some (AwsAcl (GrantDict (canonical_grant ''owner'' ''FULL_CONTROL'')))\<rparr>) = []
   \<and> grant_entry (canonical_grant ''owner'' ''FULL_CONTROL'') = Some (''owner'', ''F'')
   \<and> acl_lines [(''owner'', ''F'')] = [''owner [F]'']"
proof -
  let ?g = "canonical_grant ''owner'' ''FULL_CONTROL''"
  let ?b = "new_Bucket (Str ''acme'') ''acme.s3.amazonaws.com'' ''aws'' ''AWS Bucket''"
  have n: "name ?b = Str ''acme''" and d: "details (?b\<lparr>acl := Some (AwsAcl (GrantDict ?g))\<rparr>) = []"
    by (simp_all add: new_Bucket_def)
  have h1: "aws_get_acl (single_grant_answer ?g) (name ?b)
      = Some (AccessControlPolicy (AccessControlList (Grant (GrantDict ?g))))"
    by (simp add: single_grant_answer_def)
  have g: "Grantee ?g \<noteq> None"
    by (simp add: canonical_grant_def)
  then have h2: "Grantee ?g \<noteq> None \<or> Permission ?g \<noteq> None" by blast
  have e: "grant_entry ?g = Some (''owner'', ''F'')"
    by (simp add: grant_entry_def grant_user_def canonical_grant_def symbol_of_def)
  have l: "acl_lines [(''owner'', ''F'')] = [''owner [F]'']"
    by (simp add: acl_lines_def grantee_symbols_def first_occurrences_def)
  from aws_acl_single_grant[OF h1 h2] have "aws_acl (single_grant_answer ?g) ?b
      = (?b\<lparr>acl := Some (AwsAcl (GrantDict ?g))\<rparr>, [GetAwsAcl (Str ''acme'')], Some TypeError)"
    by (simp only: n)
  with g d e l show ?thesis by blast
qed

text \<open>
  C10: a grant whose grantee key can be read and whose permission is none of the five
  leaves \<^verbatim>\<open>symb\<close> as it was. As the first grant it makes \<open>_aws_acl\<close> fail with
  UnboundLocalError, nothing recorded and no line appended; with \<^verbatim>\<open>symb\<close> bound to \<open>s\<close> it
  records \<open>s\<close> for its own grantee without error; so right after a grant with symbol \<open>s0\<close>
  for grantee \<open>u0\<close>, the loop records \<open>s0\<close> for \<open>u0\<close> and then \<open>s0\<close> again for the grantee \<open>u\<close>
  of this grant.
\<close>

theorem unknown_permission:
  assumes "grant_user g = Inr u" and "Permission g = Some p" and "p \<notin> set known_permissions"
  shows "aws_grants (GrantList (g # gs)) b = (b, Some UnboundLocalError)
       \<and> aws_grant g (b, r, Some s) = Inr (b, record_symbol u s r, Some s)
       \<and> (\<forall>g0 u0 s0. grant_entry g0 = Some (u0, s0) \<longrightarrow>
            (\<exists>b1. aws_loop [g0, g] (b, r, sy) =
               ((b1, record_symbol u s0 (record_symbol u0 s0 r), Some s0), None)))"
proof -
  from assms(3) have pr: "permission_rule p bs = bs" for bs
    by (simp add: permission_rule_def known_permissions_def)
  have 1: "aws_grant g (b, [], None) = Inl UnboundLocalError"
    by (simp add: aws_grant_def assms(1,2) pr)
  have 2: "aws_grant g (b', r', Some s') = Inr (b', record_symbol u s' r', Some s')" for b' r' s'
    by (simp add: aws_grant_def assms(1,2) pr)
  have 3: "\<exists>b1. aws_loop [g0, g] (b, r, sy) =
               ((b1, record_symbol u s0 (record_symbol u0 s0 r), Some s0), None)"
    if "grant_entry g0 = Some (u0, s0)" for g0 u0 s0
  proof -
    from grant_entry_step(1)[OF that, of b r sy]
    obtain b1 where "aws_grant g0 (b, r, sy) = Inr (b1, record_symbol u0 s0 r, Some s0)" by blast
    then show ?thesis by (simp add: 2)
  qed
  from 1 have "aws_grants (GrantList (g # gs)) b = (b, Some UnboundLocalError)"
    by (simp add: aws_grants_def)
  with 2 3 show ?thesis by blast
qed

theorem unknown_permission_witness:
  "grant_user (canonical_grant ''bob'' ''WRITE_ACP'') = Inr ''bob''
   \<and> Permission (canonical_grant ''bob'' ''WRITE_ACP'') = Some ''WRITE_ACP''
   \<and> ''WRITE_ACP'' \<notin> set known_permissions
   \<and> aws_grants (GrantList [canonical_grant ''bob'' ''WRITE_ACP''])
        (new_Bucket (Str ''acme'') ''acme.s3.amazonaws.com'' ''aws'' ''AWS Bucket'')
     = (new_Bucket (Str ''acme'') ''acme.s3.amazonaws.com'' ''aws'' ''AWS Bucket'',
        Some UnboundLocalError)
   \<and> aws_grants (GrantList [canonical_grant ''alice'' ''READ'', canonical_grant ''bob'' ''WRITE_ACP''])
        (new_Bucket (Str ''acme'') ''acme.s3.amazonaws.com'' ''aws'' ''AWS Bucket'')
     = ((new_Bucket (Str ''acme'') ''acme.s3.amazonaws.com'' ''aws'' ''AWS Bucket'')
          \<lparr>details := [''alice [R]'', ''bob [R]'']\<rparr>, None)"
proof -
  let ?g = "canonical_grant ''bob'' ''WRITE_ACP''"
  let ?b = "new_Bucket (Str ''acme'') ''acme.s3.amazonaws.com'' ''aws'' ''AWS Bucket''"
  have h: "grant_user ?g = Inr ''bob''" "Permission ?g = Some ''WRITE_ACP''"
    "''WRITE_ACP'' \<notin> set known_permissions"
    by (simp_all add: grant_user_def canonical_grant_def known_permissions_def)
  have a: "aws_grant (canonical_grant ''alice'' ''READ'') (?b, [], None)
      = Inr (?b, [(''alice'', ''R'')], Some ''R'')"
    by (simp add: aws_grant_def grant_user_def canonical_grant_def permission_rule_def
        record_symbol_def)
  from unknown_permission[OF h, of "[]" ?b "[(''alice'', ''R'')]" "''R''" None]
  have 1: "aws_grants (GrantList [?g]) ?b = (?b, Some UnboundLocalError)"
    and 2: "aws_grant ?g (?b, [(''alice'', ''R'')], Some ''R'')
      = Inr (?b, record_symbol ''bob'' ''R'' [(''alice'', ''R'')], Some ''R'')"
    by blast+
  have l: "aws_loop [canonical_grant ''alice'' ''READ'', ?g] (?b, [], None)
      = ((?b, [(''alice'', ''R''), (''bob'', ''R'')], Some ''R''), None)"
    by (simp add: a 2 record_symbol_def)
  have "aws_grants (GrantList [canonical_grant ''alice'' ''READ'', ?g]) ?b
      = (?b\<lparr>details := details ?b @ [''alice [R]'', ''bob [R]'']\<rparr>, None)"
    by (simp add: aws_grants_def l rights_details_def del: aws_loop.simps)
  also have "details ?b = []"
    by (simp add: new_Bucket_def)
  finally have "aws_grants (GrantList [canonical_grant ''alice'' ''READ'', ?g]) ?b
      = (?b\<lparr>details := [''alice [R]'', ''bob [R]'']\<rparr>, None)"
    by simp
  with h 1 show ?thesis by blast
qed

subsection \<open>Scoped crawler\<close>

text \<open>
  Whatever the iteration order of sets, no URL occurs twice in the list that \<open>list_urls\<close>
  returns.
\<close>

lemma list_urls_distinct: "set_order L \<Longrightarrow> distinct (list_urls L n scope fq)"
  by (cases n) (simp add: set_order_def Let_def)

text \<open>
  C5 asks for a sorted list. \<open>list_urls\<close> sorts and then passes the sorted list through
  \<^verbatim>\<open>list(set(result))\<close>, so the order returned is the iteration order of the set. Under an
  order of sets that yields \<^verbatim>\<open>http://a.example/y\<close> before \<^verbatim>\<open>http://a.example/x\<close>, the list
  returned for a node with these two links is not sorted.
\<close>

theorem list_urls_unsorted:
  "set_order (absolute_lib (\<lambda>xs. rev (remdups xs)))
   \<and> list_urls (absolute_lib (\<lambda>xs. rev (remdups xs)))
     (HiddenGems ''http://a.example/'' ''a.example'' ''http://a.example''
        [(''links'', [''http://a.example/y'', ''http://a.example/x''])] [])
     False False
   = [''http://a.example/y'', ''http://a.example/x'']
   \<and> \<not> sorted [''http://a.example/y'', ''http://a.example/x'']"
  by (simp add: set_order_def normalize_url_def absolute_lib_def simple_urlparse_def Let_def
      startswith_def)

text \<open>
  C7 asks for the comma-split origins. \<open>extract_cors\<close> tests \<^verbatim>\<open>hasattr\<close> on the headers, which
  asks for an attribute of the dictionary object and not for a header, so it returns the
  empty list for all headers: also for an Access-Control-Allow-Origin header whose value
  splits into two origins.
\<close>

theorem extract_cors_empty:
  "extract_cors hs = Inr []
   \<and> ci_get [(''Access-Control-Allow-Origin'', ''https://a.example,https://b.example'')]
        ''Access-Control-Allow-Origin'' = Some ''https://a.example,https://b.example''
   \<and> split CHR '','' ''https://a.example,https://b.example''
        = [''https://a.example'', ''https://b.example'']"
  by (simp add: extract_cors_def hasattr_headers_def header_attributes_def lower_def)

subsection \<open>Cloud fingerprint classifier\<close>

text \<open>
  C6 asks for the first path segment, a single name string, when the host has at most three
  labels, the path has a segment and the registrable domain is one of the generic cloud
  base domains. \<open>what_cloud_name\<close> gives the list slice that holds the segment, not the
  segment.
\<close>

theorem what_cloud_name_is_list:
  assumes "length (split CHR ''.'' host) \<le> 3"
    and "split CHR ''/'' pth = root # seg # rest"
    and "dn \<in> set cloud_base_domains"
  shows "what_cloud_name dn host pth = StrList [seg]"
  using assms by (simp add: what_cloud_name_def)

theorem what_cloud_name_is_list_witness:
  "length (split CHR ''.'' ''s3.amazonaws.com'') \<le> 3
   \<and> split CHR ''/'' ''/mybucket/key.txt'' = [] # ''mybucket'' # [''key.txt'']
   \<and> ''amazonaws'' \<in> set cloud_base_domains
   \<and> what_cloud_name ''amazonaws'' ''s3.amazonaws.com'' ''/mybucket/key.txt'' = StrList [''mybucket'']
   \<and> what_cloud_name ''amazonaws'' ''s3.amazonaws.com'' ''/mybucket/key.txt'' \<noteq> Str ''mybucket''"
proof -
  have h: "length (split CHR ''.'' ''s3.amazonaws.com'') \<le> 3"
    "split CHR ''/'' ''/mybucket/key.txt'' = [] # ''mybucket'' # [''key.txt'']"
    "''amazonaws'' \<in> set cloud_base_domains"
    by (simp_all add: cloud_base_domains_def)
  from what_cloud_name_is_list[OF h] h show ?thesis by simp
qed

end
